theory Spec2Isabelle
  imports Main
begin

section \<open>The order-fulfilment pipeline of \<^verbatim>\<open>order-processor/function_app.py\<close>\<close>

text \<open>
  The two queue-triggered handlers \<^verbatim>\<open>process_order\<close> and \<^verbatim>\<open>confirm_order\<close> are embedded as
  functions on an explicit world: the ledger (the four tables the SQL statements touch), the
  blob container \<^verbatim>\<open>invoices\<close> and the messages sent to \<^verbatim>\<open>order-confirmation-queue\<close>.
  An exception of the Python code is a value \<open>Inl e\<close>; a handler returns its outcome together
  with the world it leaves behind.
\<close>

subsection \<open>Exceptions\<close>

datatype error =
    JSONDecodeError
  | KeyError string
  | OperationalError
  | IntegrityError
  | ServiceBusError
  | StorageError
  | RenderError

subsection \<open>Wire entities\<close>

text \<open>
  \<^verbatim>\<open>json.loads\<close> yields a Python dict. The handlers only subscript it, so the dict is a record
  whose fields may be absent: subscripting an absent key raises \<^verbatim>\<open>KeyError\<close>. The values
  have the types of the wire format (integers for the ids and quantities); the price is kept
  in an arbitrary type \<open>'p\<close>.
\<close>

record 'p item =
  it_product_id :: "int option"
  it_quantity :: "int option"
  it_price :: "'p option"

record 'p order_event =
  ev_order_id :: "int option"
  ev_warehouse_id :: "int option"
  ev_items :: "'p item list option"

record confirmation_event =
  ce_order_id :: "int option"

definition getitem :: "string \<Rightarrow> 'a option \<Rightarrow> error + 'a" where
  "getitem key field = (case field of None \<Rightarrow> Inl (KeyError key) | Some v \<Rightarrow> Inr v)"

subsection \<open>The ledger\<close>

text \<open>
  Modelled from the spec: the declarations of the tables are not in the function app. The
  spec gives \<^verbatim>\<open>orders(order_id PK, warehouse_id, status, invoice_blob)\<close>,
  \<^verbatim>\<open>inventory(product_id, warehouse_id, quantity)\<close>,
  \<^verbatim>\<open>order_items(order_id, product_id PK pair, quantity, price)\<close> and
  \<^verbatim>\<open>invoice(order_id, created_at)\<close>. A table is the list of its rows, in insertion order;
  ids and quantities are integers (signed, with no bound here), the status is the text the
  statements write, the price is of the type \<open>'p\<close> of the event's prices, stored as it is.
  The keys matter in two statements: an \<^verbatim>\<open>INSERT\<close> into \<^verbatim>\<open>orders\<close> of an id that is present
  fails, and \<^verbatim>\<open>ON DUPLICATE KEY UPDATE\<close> finds the row of \<^verbatim>\<open>order_items\<close> by its pair.
\<close>

record order_row =
  o_order_id :: int
  o_warehouse_id :: int
  o_status :: string
  o_invoice_blob :: "string option"

record inventory_row =
  inv_product_id :: int
  inv_warehouse_id :: int
  inv_quantity :: int

record 'p order_item_row =
  oi_order_id :: int
  oi_product_id :: int
  oi_quantity :: int
  oi_price :: 'p

record invoice_row =
  invc_order_id :: int
  invc_created_at :: nat

record 'p ledger =
  orders :: "order_row list"
  inventory :: "inventory_row list"
  order_items :: "'p order_item_row list"
  invoice :: "invoice_row list"

subsection \<open>The SQL statements\<close>

text \<open>
  Each statement of the source is a function from the ledger to a result and the ledger it
  leaves, or an error. \<^verbatim>\<open>UPDATE ... WHERE\<close> rewrites every matching row and is silent when
  none matches; \<^verbatim>\<open>INSERT\<close> appends; \<^verbatim>\<open>INSERT\<close> into \<^verbatim>\<open>orders\<close> violates the primary key
  when the id is present; \<^verbatim>\<open>ON DUPLICATE KEY UPDATE\<close> rewrites the row holding the key.
\<close>

type_synonym ('p, 'a) statement = "'p ledger \<Rightarrow> error + ('a \<times> 'p ledger)"

text \<open>\<^verbatim>\<open>SELECT order_id FROM orders WHERE order_id = :oid\<close>, \<^verbatim>\<open>fetchone()\<close>.\<close>

definition select_order_id :: "int \<Rightarrow> ('p, int option) statement" where
  "select_order_id oid d =
     Inr (map_option o_order_id (find (\<lambda>r. o_order_id r = oid) (orders d)), d)"

text \<open>\<^verbatim>\<open>INSERT INTO orders (order_id, warehouse_id, status) VALUES (:oid, :wid, 'reserved')\<close>.\<close>

definition insert_order :: "int \<Rightarrow> int \<Rightarrow> ('p, unit) statement" where
  "insert_order oid wid d =
     (if oid \<in> o_order_id ` set (orders d) then Inl IntegrityError
      else Inr ((), d\<lparr>orders := orders d @
             [\<lparr>o_order_id = oid, o_warehouse_id = wid, o_status = ''reserved'',
               o_invoice_blob = None\<rparr>]\<rparr>))"

text \<open>\<^verbatim>\<open>UPDATE orders SET status = ... WHERE order_id = :oid\<close>.\<close>

definition update_order_status :: "string \<Rightarrow> int \<Rightarrow> ('p, unit) statement" where
  "update_order_status st oid d =
     Inr ((), d\<lparr>orders :=
        map (\<lambda>r. if o_order_id r = oid then r\<lparr>o_status := st\<rparr> else r) (orders d)\<rparr>)"

text \<open>\<^verbatim>\<open>UPDATE inventory SET quantity = quantity - :qty WHERE product_id = :pid AND warehouse_id = :wid\<close>.\<close>

definition update_inventory :: "int \<Rightarrow> int \<Rightarrow> int \<Rightarrow> ('p, unit) statement" where
  "update_inventory qty pid wid d =
     Inr ((), d\<lparr>inventory :=
        map (\<lambda>r. if inv_product_id r = pid \<and> inv_warehouse_id r = wid
                  then r\<lparr>inv_quantity := inv_quantity r - qty\<rparr> else r) (inventory d)\<rparr>)"

text \<open>
  \<^verbatim>\<open>INSERT INTO order_items (order_id, product_id, quantity, price) VALUES (...)
  ON DUPLICATE KEY UPDATE quantity = :qty, price = :price\<close>.
\<close>

definition upsert_order_item :: "int \<Rightarrow> int \<Rightarrow> int \<Rightarrow> 'p \<Rightarrow> ('p, unit) statement" where
  "upsert_order_item oid pid qty price d =
     (if \<exists>r \<in> set (order_items d). oi_order_id r = oid \<and> oi_product_id r = pid
      then Inr ((), d\<lparr>order_items :=
             map (\<lambda>r. if oi_order_id r = oid \<and> oi_product_id r = pid
                       then r\<lparr>oi_quantity := qty, oi_price := price\<rparr> else r)
                 (order_items d)\<rparr>)
      else Inr ((), d\<lparr>order_items := order_items d @
             [\<lparr>oi_order_id = oid, oi_product_id = pid, oi_quantity = qty,
               oi_price = price\<rparr>]\<rparr>))"

text \<open>\<^verbatim>\<open>SELECT * FROM orders WHERE order_id = :oid\<close>, \<^verbatim>\<open>.mappings().first()\<close>.\<close>

definition select_order :: "int \<Rightarrow> ('p, order_row option) statement" where
  "select_order oid d = Inr (find (\<lambda>r. o_order_id r = oid) (orders d), d)"

text \<open>\<^verbatim>\<open>SELECT product_id, quantity, price FROM order_items WHERE order_id = :oid\<close>, \<^verbatim>\<open>.all()\<close>.\<close>

definition select_order_items :: "int \<Rightarrow> ('p, 'p order_item_row list) statement" where
  "select_order_items oid d = Inr (filter (\<lambda>r. oi_order_id r = oid) (order_items d), d)"

text \<open>\<^verbatim>\<open>INSERT INTO invoice(order_id, created_at) VALUES (:oid, NOW())\<close>.\<close>

definition insert_invoice :: "int \<Rightarrow> nat \<Rightarrow> ('p, unit) statement" where
  "insert_invoice oid created d =
     Inr ((), d\<lparr>invoice := invoice d @ [\<lparr>invc_order_id = oid, invc_created_at = created\<rparr>]\<rparr>)"

text \<open>\<^verbatim>\<open>UPDATE orders SET invoice_blob = :url WHERE order_id = :oid\<close>.\<close>

definition update_invoice_blob :: "string \<Rightarrow> int \<Rightarrow> ('p, unit) statement" where
  "update_invoice_blob url oid d =
     Inr ((), d\<lparr>orders :=
        map (\<lambda>r. if o_order_id r = oid then r\<lparr>o_invoice_blob := Some url\<rparr> else r) (orders d)\<rparr>)"

subsection \<open>Python text\<close>

text \<open>\<^verbatim>\<open>str(n)\<close> of an integer, as \<^verbatim>\<open>json.dumps\<close> and the f-strings print it.\<close>

fun str_nat :: "nat \<Rightarrow> string" where
  "str_nat n =
     (if n < 10 then [char_of (48 + n)]
      else str_nat (n div 10) @ [char_of (48 + n mod 10)])"

declare str_nat.simps [simp del]

definition str_int :: "int \<Rightarrow> string" where
  "str_int i = (if i < 0 then CHR ''-'' # str_nat (nat (- i)) else str_nat (nat i))"

text \<open>
  \<^verbatim>\<open>s.replace(old, new)\<close>: every non-overlapping occurrence of \<open>old\<close>, found from the left,
  becomes \<open>new\<close>; an empty \<open>old\<close> matches before every character and at the end.
\<close>

function py_replace :: "'a list \<Rightarrow> 'a list \<Rightarrow> 'a list \<Rightarrow> 'a list" where
  "py_replace old new [] = (if old = [] then new else [])"
| "py_replace old new (c # cs) =
     (if old = [] then new @ c # py_replace old new cs
      else if take (length old) (c # cs) = old
           then new @ py_replace old new (drop (length old) (c # cs))
           else c # py_replace old new cs)"
  by pat_completeness auto
termination
  by (relation "measure (\<lambda>(old, new, s). length s)") (auto simp: neq_Nil_conv)

text \<open>\<^verbatim>\<open>json.dumps({"order_id": order_id})\<close>.\<close>

definition json_dumps_order_id :: "int \<Rightarrow> string" where
  "json_dumps_order_id order_id =
     [CHR ''{'', CHR 0x22] @ ''order_id'' @ [CHR 0x22, CHR '':'', CHR '' ''] @ str_int order_id @ ''}''"

text \<open>\<^verbatim>\<open>f"invoice_order_{order_id}.pdf"\<close>.\<close>

definition blob_name :: "int \<Rightarrow> string" where
  "blob_name order_id = ''invoice_order_'' @ str_int order_id @ ''.pdf''"

subsection \<open>The world and its environment\<close>

record 'p world =
  db :: "'p ledger"
  blobs :: "string \<rightharpoonup> string"
  confirmation_queue :: "string list"

text \<open>What \<^verbatim>\<open>confirm_order\<close> hands to the PDF writer.\<close>

record ('p, 'f) invoice_doc =
  doc_order_id :: int
  doc_warehouse_id :: int
  doc_lines :: "(int \<times> int \<times> 'p \<times> 'f) list"
  doc_grand_total :: 'f

text \<open>
  Everything the handlers use and do not implement is a field of the environment of one
  invocation: \<^verbatim>\<open>json.loads\<close> (seen at the type of each queue's payload), the failures of the
  infrastructure (\<open>fault env k\<close>: the \<open>k\<close>-th call of this invocation to the store, the queue,
  the PDF writer or the blob service raises), the store's clock, Python's floating point
  (\<^verbatim>\<open>float\<close>, \<^verbatim>\<open>*\<close> and the builtin \<^verbatim>\<open>sum\<close>), the PDF writer and the blob client's URL.
\<close>

record ('p, 'f) env =
  loads_order_event :: "string \<Rightarrow> error + 'p order_event"
  loads_confirmation_event :: "string \<Rightarrow> error + confirmation_event"
  fault :: "nat \<Rightarrow> bool"
  now :: nat
  float_of_quantity :: "int \<Rightarrow> 'f"
  float_of_price :: "'p \<Rightarrow> 'f"
  fmul :: "'f \<Rightarrow> 'f \<Rightarrow> 'f"
  fsum :: "'f list \<Rightarrow> 'f"
  pdf_output :: "('p, 'f) invoice_doc \<Rightarrow> string"
  blob_url :: "string \<Rightarrow> string"

subsection \<open>Transactions\<close>

text \<open>
  Code inside \<^verbatim>\<open>with engine.begin() as conn\<close> runs on a working copy of the ledger and a
  counter of the calls made so far. \<^verbatim>\<open>conn.execute\<close> raises when the store fails, else runs
  the statement.
\<close>

type_synonym ('p, 'a) tx = "nat \<times> 'p ledger \<Rightarrow> error + ('a \<times> nat \<times> 'p ledger)"

definition execute :: "('p, 'f) env \<Rightarrow> ('p, 'a) statement \<Rightarrow> ('p, 'a) tx" where
  "execute env stmt s =
     (case s of (t, d) \<Rightarrow>
        if fault env t then Inl OperationalError
        else (case stmt d of Inl e \<Rightarrow> Inl e | Inr (a, d') \<Rightarrow> Inr (a, Suc t, d')))"

definition bind_tx :: "('p, 'a) tx \<Rightarrow> ('a \<Rightarrow> ('p, 'b) tx) \<Rightarrow> ('p, 'b) tx" where
  "bind_tx m f s = (case m s of Inl e \<Rightarrow> Inl e | Inr (a, s') \<Rightarrow> f a s')"

definition return_tx :: "'a \<Rightarrow> ('p, 'a) tx" where
  "return_tx a s = Inr (a, s)"

definition lift_tx :: "error + 'a \<Rightarrow> ('p, 'a) tx" where
  "lift_tx r s = (case r of Inl e \<Rightarrow> Inl e | Inr a \<Rightarrow> Inr (a, s))"

text \<open>\<^verbatim>\<open>for item in items: ...\<close>: the first exception ends the loop.\<close>

fun for_each :: "('x \<Rightarrow> ('p, unit) tx) \<Rightarrow> 'x list \<Rightarrow> ('p, unit) tx" where
  "for_each f [] s = Inr ((), s)"
| "for_each f (x # xs) s = (case f x s of Inl e \<Rightarrow> Inl e | Inr (u, s') \<Rightarrow> for_each f xs s')"

text \<open>
  \<^verbatim>\<open>engine.begin()\<close>: connect, run the block, commit when it ends without an exception
  (also on \<^verbatim>\<open>return\<close>). On an exception the working copy is dropped (rollback) and the
  exception goes on to the caller, whose world is the one before the block.
\<close>

definition engine_begin ::
  "('p, 'f) env \<Rightarrow> ('p, 'a) tx \<Rightarrow> nat \<times> 'p world \<Rightarrow> error + ('a \<times> nat \<times> 'p world)" where
  "engine_begin env block s =
     (case s of (t, w) \<Rightarrow>
        if fault env t then Inl OperationalError
        else (case block (Suc t, db w) of
                Inl e \<Rightarrow> Inl e
              | Inr (a, t', d') \<Rightarrow>
                  if fault env t' then Inl OperationalError
                  else Inr (a, Suc t', w\<lparr>db := d'\<rparr>)))"

subsection \<open>\<^verbatim>\<open>process_order\<close>\<close>

definition send_to_confirmation_queue ::
  "('p, 'f) env \<Rightarrow> int \<Rightarrow> nat \<times> 'p world \<Rightarrow> error + (unit \<times> nat \<times> 'p world)" where
  "send_to_confirmation_queue env order_id s =
     (case s of (t, w) \<Rightarrow>
        if fault env t then Inl ServiceBusError
        else Inr ((), Suc t,
               w\<lparr>confirmation_queue := confirmation_queue w @ [json_dumps_order_id order_id]\<rparr>))"

text \<open>The first loop (lines 87-95): the parameter dict reads \<^verbatim>\<open>quantity\<close>, then \<^verbatim>\<open>product_id\<close>.\<close>

definition decrement_item :: "('p, 'f) env \<Rightarrow> int \<Rightarrow> 'p item \<Rightarrow> ('p, unit) tx" where
  "decrement_item env warehouse_id item =
     bind_tx (lift_tx (getitem ''quantity'' (it_quantity item))) (\<lambda>qty.
     bind_tx (lift_tx (getitem ''product_id'' (it_product_id item))) (\<lambda>pid.
       execute env (update_inventory qty pid warehouse_id)))"

text \<open>The second loop (lines 98-111): reads \<^verbatim>\<open>product_id\<close>, \<^verbatim>\<open>quantity\<close>, \<^verbatim>\<open>price\<close>.\<close>

definition upsert_item :: "('p, 'f) env \<Rightarrow> int \<Rightarrow> 'p item \<Rightarrow> ('p, unit) tx" where
  "upsert_item env order_id item =
     bind_tx (lift_tx (getitem ''product_id'' (it_product_id item))) (\<lambda>pid.
     bind_tx (lift_tx (getitem ''quantity'' (it_quantity item))) (\<lambda>qty.
     bind_tx (lift_tx (getitem ''price'' (it_price item))) (\<lambda>price.
       execute env (upsert_order_item order_id pid qty price))))"

text \<open>The block of lines 63-111.\<close>

definition process_order_tx ::
  "('p, 'f) env \<Rightarrow> int \<Rightarrow> int \<Rightarrow> 'p item list \<Rightarrow> ('p, unit) tx" where
  "process_order_tx env order_id warehouse_id items =
     bind_tx (execute env (select_order_id order_id)) (\<lambda>existing.
     bind_tx (if existing = None
              then execute env (insert_order order_id warehouse_id)
              else execute env (update_order_status ''reserved'' order_id)) (\<lambda>_.
     bind_tx (for_each (decrement_item env warehouse_id) items) (\<lambda>_.
       for_each (upsert_item env order_id) items)))"

definition process_order ::
  "('p, 'f) env \<Rightarrow> string \<Rightarrow> 'p world \<Rightarrow> (error + unit) \<times> 'p world" where
  "process_order env body w =
     (case loads_order_event env body of
        Inl e \<Rightarrow> (Inl e, w)
      | Inr order_event \<Rightarrow>
     (case getitem ''order_id'' (ev_order_id order_event) of
        Inl e \<Rightarrow> (Inl e, w)
      | Inr order_id \<Rightarrow>
     (case getitem ''warehouse_id'' (ev_warehouse_id order_event) of
        Inl e \<Rightarrow> (Inl e, w)
      | Inr warehouse_id \<Rightarrow>
     (case getitem ''items'' (ev_items order_event) of
        Inl e \<Rightarrow> (Inl e, w)
      | Inr items \<Rightarrow>
     (case engine_begin env (process_order_tx env order_id warehouse_id items) (0, w) of
        Inl e \<Rightarrow> (Inl e, w)
      | Inr (u, t, w1) \<Rightarrow>
     (case send_to_confirmation_queue env order_id (t, w1) of
        Inl e \<Rightarrow> (Inl e, w1)
      | Inr (u', t', w2) \<Rightarrow> (Inr (), w2)))))))"

subsection \<open>\<^verbatim>\<open>confirm_order\<close>\<close>

text \<open>\<^verbatim>\<open>sum(float(i["quantity"]) * float(i["price"]) for i in items)\<close>.\<close>

definition line_total :: "('p, 'f) env \<Rightarrow> 'p order_item_row \<Rightarrow> 'f" where
  "line_total env i = fmul env (float_of_quantity env (oi_quantity i)) (float_of_price env (oi_price i))"

definition total_amount :: "('p, 'f) env \<Rightarrow> 'p order_item_row list \<Rightarrow> 'f" where
  "total_amount env items = fsum env (map (line_total env) items)"

text \<open>
  The block of lines 168-193. \<open>None\<close> is the \<^verbatim>\<open>return\<close> of line 177; otherwise the block leaves
  \<^verbatim>\<open>order\<close>, \<^verbatim>\<open>items\<close> and \<^verbatim>\<open>total_amount\<close> to the code after it.
\<close>

definition confirm_order_tx ::
  "('p, 'f) env \<Rightarrow> int \<Rightarrow> ('p, (order_row \<times> 'p order_item_row list \<times> 'f) option) tx" where
  "confirm_order_tx env order_id =
     bind_tx (execute env (select_order order_id)) (\<lambda>order.
       case order of
         None \<Rightarrow> return_tx None
       | Some ord \<Rightarrow>
           bind_tx (execute env (update_order_status ''confirmed'' order_id)) (\<lambda>_.
           bind_tx (execute env (select_order_items order_id)) (\<lambda>items.
           bind_tx (execute env (insert_invoice order_id (now env))) (\<lambda>_.
             return_tx (Some (ord, items, total_amount env items))))))"

text \<open>Lines 195-234: the document and its bytes.\<close>

definition invoice_document ::
  "('p, 'f) env \<Rightarrow> int \<Rightarrow> order_row \<Rightarrow> 'p order_item_row list \<Rightarrow> 'f \<Rightarrow> ('p, 'f) invoice_doc" where
  "invoice_document env order_id ord items amount =
     \<lparr>doc_order_id = order_id, doc_warehouse_id = o_warehouse_id ord,
      doc_lines = map (\<lambda>i. (oi_product_id i, oi_quantity i, oi_price i, line_total env i)) items,
      doc_grand_total = amount\<rparr>"

definition generate_pdf ::
  "('p, 'f) env \<Rightarrow> ('p, 'f) invoice_doc \<Rightarrow> nat \<Rightarrow> error + (string \<times> nat)" where
  "generate_pdf env doc t =
     (if fault env t then Inl RenderError else Inr (pdf_output env doc, Suc t))"

text \<open>\<^verbatim>\<open>upload_blob(..., overwrite=True)\<close>, then \<^verbatim>\<open>blob_client.url\<close>.\<close>

definition upload_blob ::
  "('p, 'f) env \<Rightarrow> string \<Rightarrow> string \<Rightarrow> nat \<times> 'p world \<Rightarrow> error + (string \<times> nat \<times> 'p world)" where
  "upload_blob env name bytes s =
     (case s of (t, w) \<Rightarrow>
        if fault env t then Inl StorageError
        else Inr (blob_url env name, Suc t, w\<lparr>blobs := (blobs w)(name \<mapsto> bytes)\<rparr>))"

definition confirm_order ::
  "('p, 'f) env \<Rightarrow> string \<Rightarrow> 'p world \<Rightarrow> (error + unit) \<times> 'p world" where
  "confirm_order env body w =
     (case loads_confirmation_event env (py_replace [CHR 0x27] [CHR 0x22] body) of
        Inl e \<Rightarrow> (Inl e, w)
      | Inr event \<Rightarrow>
     (case getitem ''order_id'' (ce_order_id event) of
        Inl e \<Rightarrow> (Inl e, w)
      | Inr order_id \<Rightarrow>
     (case engine_begin env (confirm_order_tx env order_id) (0, w) of
        Inl e \<Rightarrow> (Inl e, w)
      | Inr (None, t, w1) \<Rightarrow> (Inr (), w1)
      | Inr (Some (ord, items, amount), t, w1) \<Rightarrow>
     (case generate_pdf env (invoice_document env order_id ord items amount) t of
        Inl e \<Rightarrow> (Inl e, w1)
      | Inr (pdf_bytes, t1) \<Rightarrow>
     (case upload_blob env (blob_name order_id) pdf_bytes (t1, w1) of
        Inl e \<Rightarrow> (Inl e, w1)
      | Inr (url, t2, w2) \<Rightarrow>
     (case engine_begin env (execute env (update_invoice_blob url order_id)) (t2, w2) of
        Inl e \<Rightarrow> (Inl e, w2)
      | Inr (u, t3, w3) \<Rightarrow> (Inr (), w3)))))))"

subsection \<open>The triggers\<close>

text \<open>
  The runtime calls \<^verbatim>\<open>process_order\<close> for a message of \<^verbatim>\<open>orders-queue\<close> and \<^verbatim>\<open>confirm_order\<close>
  for a message of \<^verbatim>\<open>order-confirmation-queue\<close> (lines 47-51 and 154-158), each invocation in
  its own environment. An exception is left to the runtime; the world goes on as the handler
  left it.
\<close>

datatype ('p, 'f) delivery =
    Orders_queue "('p, 'f) env" string
  | Confirmation_queue "('p, 'f) env" string

fun deliver :: "('p, 'f) delivery \<Rightarrow> 'p world \<Rightarrow> 'p world" where
  "deliver (Orders_queue env body) w = snd (process_order env body w)"
| "deliver (Confirmation_queue env body) w = snd (confirm_order env body w)"

definition invocations :: "('p, 'f) delivery list \<Rightarrow> 'p world \<Rightarrow> 'p world" where
  "invocations ms w = fold deliver ms w"

section \<open>Vocabulary of the statements\<close>

subsection \<open>Well-formed events\<close>

text \<open>
  The dict of an \<^verbatim>\<open>OrderEvent\<close> that has every field: \<open>its\<close> lists the items as
  (product id, quantity, price).
\<close>

definition item_of :: "int \<times> int \<times> 'p \<Rightarrow> 'p item" where
  "item_of x = (case x of (pid, qty, price) \<Rightarrow>
     \<lparr>it_product_id = Some pid, it_quantity = Some qty, it_price = Some price\<rparr>)"

definition order_event_of :: "int \<Rightarrow> int \<Rightarrow> (int \<times> int \<times> 'p) list \<Rightarrow> 'p order_event" where
  "order_event_of oid wid its =
     \<lparr>ev_order_id = Some oid, ev_warehouse_id = Some wid, ev_items = Some (map item_of its)\<rparr>"

subsection \<open>What the statements of a reservation leave\<close>

text \<open>The quantity an event asks of one product, over all its occurrences.\<close>

definition requested :: "(int \<times> int \<times> 'p) list \<Rightarrow> int \<Rightarrow> int" where
  "requested its pid = sum_list (map (\<lambda>x. fst (snd x)) (filter (\<lambda>x. fst x = pid) its))"

definition decremented :: "int \<Rightarrow> (int \<times> int \<times> 'p) list \<Rightarrow> inventory_row \<Rightarrow> inventory_row" where
  "decremented wid its r =
     (if inv_warehouse_id r = wid
      then r\<lparr>inv_quantity := inv_quantity r - requested its (inv_product_id r)\<rparr> else r)"

definition row_key :: "'p order_item_row \<Rightarrow> int \<times> int" where
  "row_key r = (oi_order_id r, oi_product_id r)"

definition set_row :: "int \<Rightarrow> int \<times> int \<times> 'p \<Rightarrow> 'p order_item_row \<Rightarrow> 'p order_item_row" where
  "set_row oid x r =
     (if oi_order_id r = oid \<and> oi_product_id r = fst x
      then r\<lparr>oi_quantity := fst (snd x), oi_price := snd (snd x)\<rparr> else r)"

definition row_of :: "int \<Rightarrow> int \<times> int \<times> 'p \<Rightarrow> 'p order_item_row" where
  "row_of oid x =
     \<lparr>oi_order_id = oid, oi_product_id = fst x, oi_quantity = fst (snd x), oi_price = snd (snd x)\<rparr>"

text \<open>The upsert of one item, on the rows of \<^verbatim>\<open>order_items\<close>.\<close>

definition upsert_row :: "int \<Rightarrow> int \<times> int \<times> 'p \<Rightarrow> 'p order_item_row list \<Rightarrow> 'p order_item_row list" where
  "upsert_row oid x rows =
     (if (oid, fst x) \<in> row_key ` set rows then map (set_row oid x) rows else rows @ [row_of oid x])"

text \<open>Quantity and price of the last occurrence of a product in an event.\<close>

definition last_for :: "(int \<times> int \<times> 'p) list \<Rightarrow> int \<Rightarrow> (int \<times> 'p) option" where
  "last_for its pid = map_option snd (find (\<lambda>x. fst x = pid) (rev its))"

definition reserved_orders :: "int \<Rightarrow> int \<Rightarrow> order_row list \<Rightarrow> order_row list" where
  "reserved_orders oid wid rows =
     (if oid \<in> o_order_id ` set rows
      then map (\<lambda>r. if o_order_id r = oid then r\<lparr>o_status := ''reserved''\<rparr> else r) rows
      else rows @ [\<lparr>o_order_id = oid, o_warehouse_id = wid, o_status = ''reserved'',
                    o_invoice_blob = None\<rparr>])"

text \<open>The ledger after every statement of the block of \<^verbatim>\<open>process_order\<close> has run.\<close>

definition reserved_ledger ::
  "int \<Rightarrow> int \<Rightarrow> (int \<times> int \<times> 'p) list \<Rightarrow> 'p ledger \<Rightarrow> 'p ledger" where
  "reserved_ledger oid wid its d =
     d\<lparr>orders := reserved_orders oid wid (orders d),
       inventory := map (decremented wid its) (inventory d),
       order_items := fold (upsert_row oid) its (order_items d)\<rparr>"

subsection \<open>What the statements of a confirmation leave\<close>

text \<open>The ledger after every statement of the first block of \<^verbatim>\<open>confirm_order\<close> has run.\<close>

definition confirmed_ledger :: "int \<Rightarrow> nat \<Rightarrow> 'p ledger \<Rightarrow> 'p ledger" where
  "confirmed_ledger oid created d =
     d\<lparr>orders := map (\<lambda>r. if o_order_id r = oid then r\<lparr>o_status := ''confirmed''\<rparr> else r) (orders d),
       invoice := invoice d @ [\<lparr>invc_order_id = oid, invc_created_at = created\<rparr>]\<rparr>"

text \<open>The document of an order whose row is \<open>ord\<close>, from the items the ledger holds for it.\<close>

definition invoice_of :: "('p, 'f) env \<Rightarrow> int \<Rightarrow> order_row \<Rightarrow> 'p ledger \<Rightarrow> ('p, 'f) invoice_doc" where
  "invoice_of env oid ord d =
     invoice_document env oid ord (filter (\<lambda>r. oi_order_id r = oid) (order_items d))
       (total_amount env (filter (\<lambda>r. oi_order_id r = oid) (order_items d)))"

definition invoiced_orders :: "string \<Rightarrow> int \<Rightarrow> order_row list \<Rightarrow> order_row list" where
  "invoiced_orders url oid rows =
     map (\<lambda>r. if o_order_id r = oid then r\<lparr>o_invoice_blob := Some url\<rparr> else r) rows"

subsection \<open>Sequences of invocations\<close>

text \<open>A delivery that is a reservation event for the order \<open>oid\<close>.\<close>

definition reservation_for :: "int \<Rightarrow> ('p, 'f) delivery \<Rightarrow> bool" where
  "reservation_for oid m =
     (case m of
        Orders_queue env body \<Rightarrow>
          (case loads_order_event env body of Inl e \<Rightarrow> False | Inr ev \<Rightarrow> ev_order_id ev = Some oid)
      | Confirmation_queue env body \<Rightarrow> False)"

text \<open>The order has a row, and every row of it has status \<^verbatim>\<open>confirmed\<close>.\<close>

definition confirmed_in :: "int \<Rightarrow> 'p world \<Rightarrow> bool" where
  "confirmed_in oid w \<longleftrightarrow>
     oid \<in> o_order_id ` set (orders (db w)) \<and>
     (\<forall>r\<in>set (orders (db w)). o_order_id r = oid \<longrightarrow> o_status r = ''confirmed'')"

text \<open>The order has a row, and every row of it has status \<^verbatim>\<open>reserved\<close>.\<close>

definition reserved_in :: "int \<Rightarrow> 'p world \<Rightarrow> bool" where
  "reserved_in oid w \<longleftrightarrow>
     oid \<in> o_order_id ` set (orders (db w)) \<and>
     (\<forall>r\<in>set (orders (db w)). o_order_id r = oid \<longrightarrow> o_status r = ''reserved'')"

subsection \<open>A concrete scenario\<close>

text \<open>
  One store, one parser that knows the payloads below, no failure of the infrastructure, and
  integer arithmetic standing for the floating point (prices in hundredths).
\<close>

definition scenario_order_body :: string where
  \<open>scenario_order_body =
     ''{"order_id": 1, "warehouse_id": 5, "items": [{"product_id": 10, "quantity": 2, "price": 950}]}''\<close>

definition scenario_duplicate_body :: string where
  \<open>scenario_duplicate_body =
     ''{"order_id": 1, "warehouse_id": 5, "items": [{"product_id": 10, "quantity": 2, "price": 950}, {"product_id": 10, "quantity": 3, "price": 800}]}''\<close>

definition scenario_other_body :: string where
  \<open>scenario_other_body =
     ''{"order_id": 2, "warehouse_id": 5, "items": [{"product_id": 11, "quantity": 1, "price": 100}]}''\<close>

definition scenario_env :: "(int, int) env" where
  \<open>scenario_env =
     \<lparr>loads_order_event = (\<lambda>s.
        if s = scenario_order_body then Inr (order_event_of 1 5 [(10, 2, 950)])
        else if s = scenario_duplicate_body
        then Inr (order_event_of 1 5 [(10, 2, 950), (10, 3, 800)])
        else if s = scenario_other_body then Inr (order_event_of 2 5 [(11, 1, 100)])
        else Inl JSONDecodeError),
      loads_confirmation_event = (\<lambda>s.
        if s = ''{"order_id": 1}'' then Inr \<lparr>ce_order_id = Some 1\<rparr>
        else if s = ''{"order_id": 999}'' then Inr \<lparr>ce_order_id = Some 999\<rparr>
        else Inl JSONDecodeError),
      fault = (\<lambda>k. False),
      now = 0,
      float_of_quantity = (\<lambda>q. q),
      float_of_price = (\<lambda>p. p),
      fmul = (\<lambda>a b. a * b),
      fsum = sum_list,
      pdf_output = (\<lambda>doc. ''total '' @ str_int (doc_grand_total doc)),
      blob_url = (\<lambda>name. ''https://store/invoices/'' @ name)\<rparr>\<close>

definition scenario_world :: "int world" where
  "scenario_world =
     \<lparr>db = \<lparr>orders = [],
            inventory = [\<lparr>inv_product_id = 10, inv_warehouse_id = 5, inv_quantity = 1\<rparr>,
                         \<lparr>inv_product_id = 11, inv_warehouse_id = 5, inv_quantity = 4\<rparr>],
            order_items = [], invoice = []\<rparr>,
      blobs = Map.empty, confirmation_queue = []\<rparr>"

text \<open>The same environment with a store that fails at its \<open>k\<close>-th call.\<close>

definition scenario_outage :: "nat \<Rightarrow> (int, int) env" where
  "scenario_outage k = scenario_env\<lparr>fault := (\<lambda>t. t = k)\<rparr>"

text \<open>
  The same environment with a parser that yields an order event whose second item has no
  \<^verbatim>\<open>price\<close>: the second loop raises \<^verbatim>\<open>KeyError\<close> at that item, after the order row, both
  decrements and the first upsert were executed in the block.
\<close>

definition scenario_incomplete_env :: "(int, int) env" where
  "scenario_incomplete_env =
     scenario_env\<lparr>loads_order_event := (\<lambda>s. Inr
       \<lparr>ev_order_id = Some 1, ev_warehouse_id = Some 5,
        ev_items = Some [\<lparr>it_product_id = Some 10, it_quantity = Some 2, it_price = Some 950\<rparr>,
                         \<lparr>it_product_id = Some 11, it_quantity = Some 1, it_price = None\<rparr>]\<rparr>)\<rparr>"

text \<open>The world after the reservation of the scenario, and after its confirmation.\<close>

definition scenario_reserved :: "int world" where
  \<open>scenario_reserved =
     \<lparr>db = \<lparr>orders = [\<lparr>o_order_id = 1, o_warehouse_id = 5, o_status = ''reserved'',
                       o_invoice_blob = None\<rparr>],
            inventory = [\<lparr>inv_product_id = 10, inv_warehouse_id = 5, inv_quantity = - 1\<rparr>,
                         \<lparr>inv_product_id = 11, inv_warehouse_id = 5, inv_quantity = 4\<rparr>],
            order_items = [\<lparr>oi_order_id = 1, oi_product_id = 10, oi_quantity = 2, oi_price = 950\<rparr>],
            invoice = []\<rparr>,
      blobs = Map.empty, confirmation_queue = [''{"order_id": 1}'']\<rparr>\<close>

definition scenario_confirmed :: "int world" where
  \<open>scenario_confirmed =
     \<lparr>db = \<lparr>orders = [\<lparr>o_order_id = 1, o_warehouse_id = 5, o_status = ''confirmed'',
                       o_invoice_blob = Some ''https://store/invoices/invoice_order_1.pdf''\<rparr>],
            inventory = [\<lparr>inv_product_id = 10, inv_warehouse_id = 5, inv_quantity = - 1\<rparr>,
                         \<lparr>inv_product_id = 11, inv_warehouse_id = 5, inv_quantity = 4\<rparr>],
            order_items = [\<lparr>oi_order_id = 1, oi_product_id = 10, oi_quantity = 2, oi_price = 950\<rparr>],
            invoice = [\<lparr>invc_order_id = 1, invc_created_at = 0\<rparr>]\<rparr>,
      blobs = [''invoice_order_1.pdf'' \<mapsto> ''total 1900''],
      confirmation_queue = [''{"order_id": 1}'']\<rparr>\<close>

text \<open>The world after the event that names product 10 twice.\<close>

definition scenario_duplicated :: "int world" where
  \<open>scenario_duplicated =
     \<lparr>db = \<lparr>orders = [\<lparr>o_order_id = 1, o_warehouse_id = 5, o_status = ''reserved'',
                       o_invoice_blob = None\<rparr>],
            inventory = [\<lparr>inv_product_id = 10, inv_warehouse_id = 5, inv_quantity = - 4\<rparr>,
                         \<lparr>inv_product_id = 11, inv_warehouse_id = 5, inv_quantity = 4\<rparr>],
            order_items = [\<lparr>oi_order_id = 1, oi_product_id = 10, oi_quantity = 3, oi_price = 800\<rparr>],
            invoice = []\<rparr>,
      blobs = Map.empty, confirmation_queue = [''{"order_id": 1}'']\<rparr>\<close>

section \<open>The handlers in closed form\<close>

subsection \<open>The two loops\<close>

lemma decrement_item_of:
  "decrement_item env wid (item_of (pid, qty, price)) (t, d) =
     (if fault env t then Inl OperationalError
      else Inr ((), Suc t, d\<lparr>inventory :=
        map (\<lambda>r. if inv_product_id r = pid \<and> inv_warehouse_id r = wid
                  then r\<lparr>inv_quantity := inv_quantity r - qty\<rparr> else r) (inventory d)\<rparr>))"
  by (simp add: decrement_item_def item_of_def bind_tx_def lift_tx_def getitem_def execute_def
      update_inventory_def)

lemma decremented_Nil: "decremented wid [] = (\<lambda>r. r)"
  by (auto simp: fun_eq_iff decremented_def requested_def)

lemma decremented_Cons:
  "decremented wid ((pid, qty, price) # its) r =
   decremented wid its (if inv_product_id r = pid \<and> inv_warehouse_id r = wid
                  then r\<lparr>inv_quantity := inv_quantity r - qty\<rparr> else r)"
  by (auto simp: decremented_def requested_def)

lemma ex_fault_Suc:
  "(\<exists>k<Suc n. f (t + k)) \<longleftrightarrow> f t \<or> (\<exists>k<n. f (Suc t + k))"
proof
  assume "\<exists>k<Suc n. f (t + k)"
  then obtain k where k: "k < Suc n" "f (t + k)" by blast
  show "f t \<or> (\<exists>k<n. f (Suc t + k))"
  proof (cases k)
    case 0
    with k show ?thesis by simp
  next
    case (Suc j)
    with k have "j < n \<and> f (Suc t + j)" by simp
    then show ?thesis by blast
  qed
next
  assume "f t \<or> (\<exists>k<n. f (Suc t + k))"
  then show "\<exists>k<Suc n. f (t + k)"
  proof
    assume "f t"
    then have "0 < Suc n \<and> f (t + 0)" by simp
    then show ?thesis by blast
  next
    assume "\<exists>k<n. f (Suc t + k)"
    then obtain k where "k < n" "f (Suc t + k)" by blast
    then have "Suc k < Suc n \<and> f (t + Suc k)" by simp
    then show ?thesis by blast
  qed
qed

lemma for_each_decrement:
  "for_each (decrement_item env wid) (map item_of its) (t, d) =
     (if \<exists>k<length its. fault env (t + k) then Inl OperationalError
      else Inr ((), t + length its, d\<lparr>inventory := map (decremented wid its) (inventory d)\<rparr>))"
proof (induction its arbitrary: t d)
  case Nil
  show ?case by (simp add: decremented_Nil)
next
  case (Cons x its)
  obtain pid qty price where x: "x = (pid, qty, price)" by (cases x)
  show ?case
    by (simp add: x decrement_item_of Cons.IH ex_fault_Suc decremented_Cons o_def del: ex_simps)
qed

lemma upsert_item_of:
  "upsert_item env oid (item_of x) (t, d) =
     (if fault env t then Inl OperationalError
      else Inr ((), Suc t, d\<lparr>order_items := upsert_row oid x (order_items d)\<rparr>))"
proof -
  obtain pid qty price where x: "x = (pid, qty, price)" by (cases x)
  have "(\<exists>r\<in>set (order_items d). oi_order_id r = oid \<and> oi_product_id r = pid) \<longleftrightarrow>
        (oid, pid) \<in> row_key ` set (order_items d)"
    by (auto simp: row_key_def image_iff)
  then show ?thesis
    by (simp add: x upsert_item_def item_of_def bind_tx_def lift_tx_def getitem_def execute_def
        upsert_order_item_def upsert_row_def set_row_def row_of_def)
qed

lemma for_each_upsert:
  "for_each (upsert_item env oid) (map item_of its) (t, d) =
     (if \<exists>k<length its. fault env (t + k) then Inl OperationalError
      else Inr ((), t + length its, d\<lparr>order_items := fold (upsert_row oid) its (order_items d)\<rparr>))"
proof (induction its arbitrary: t d)
  case Nil
  show ?case by simp
next
  case (Cons x its)
  show ?case
    by (simp add: upsert_item_of Cons.IH ex_fault_Suc del: ex_simps)
qed

subsection \<open>The upsert, on the rows\<close>

lemma row_key_set_row: "row_key (set_row oid x r) = row_key r"
  by (simp add: row_key_def set_row_def)

lemma keys_upsert_row:
  "map row_key (upsert_row oid x rows) =
     (if (oid, fst x) \<in> row_key ` set rows then map row_key rows else map row_key rows @ [(oid, fst x)])"
  by (simp add: upsert_row_def row_key_set_row) (simp add: row_key_def row_of_def)

lemma keys_fold_upsert:
  "row_key ` set (fold (upsert_row oid) its rows) = row_key ` set rows \<union> (\<lambda>x. (oid, fst x)) ` set its"
proof (induction its arbitrary: rows)
  case Nil
  show ?case by simp
next
  case (Cons x its)
  have "row_key ` set (upsert_row oid x rows) = insert (oid, fst x) (row_key ` set rows)"
    using keys_upsert_row[of oid x rows] by (metis (no_types, lifting) insert_absorb list.set_map set_append list.simps(15) Un_insert_right sup_bot.right_neutral empty_set)
  then show ?case by (simp add: Cons.IH)
qed

lemma distinct_fold_upsert:
  "distinct (map row_key rows) \<Longrightarrow> distinct (map row_key (fold (upsert_row oid) its rows))"
proof (induction its arbitrary: rows)
  case Nil
  then show ?case by simp
next
  case (Cons x its)
  from Cons.prems have "distinct (map row_key (upsert_row oid x rows))"
    by (simp add: keys_upsert_row)
  from Cons.IH[OF this] show ?case by simp
qed

lemma last_for_snoc:
  "last_for (its @ [x]) pid = (if fst x = pid then Some (snd x) else last_for its pid)"
  by (simp add: last_for_def)

lemma in_upsert_row:
  assumes "r \<in> set (upsert_row oid x R)"
  shows "(r \<in> set R \<and> row_key r \<noteq> (oid, fst x)) \<or> r = row_of oid x \<or>
         (\<exists>r0\<in>set R. row_key r0 = (oid, fst x) \<and> r = set_row oid x r0)"
proof (cases "(oid, fst x) \<in> row_key ` set R")
  case True
  with assms obtain r0 where r0: "r0 \<in> set R" "r = set_row oid x r0"
    by (auto simp: upsert_row_def)
  show ?thesis
  proof (cases "row_key r0 = (oid, fst x)")
    case True
    with r0 show ?thesis by blast
  next
    case False
    then have "set_row oid x r0 = r0" by (auto simp: set_row_def row_key_def)
    with r0 False show ?thesis by simp
  qed
next
  case False
  with assms have "r \<in> set R \<or> r = row_of oid x" by (auto simp: upsert_row_def)
  with False show ?thesis by (metis image_eqI)
qed

lemma values_fold_upsert:
  "r \<in> set (fold (upsert_row oid) its rows) \<Longrightarrow> oi_order_id r = oid \<Longrightarrow>
   last_for its (oi_product_id r) = Some v \<Longrightarrow> (oi_quantity r, oi_price r) = v"
proof (induction its arbitrary: r v rule: rev_induct)
  case Nil
  then show ?case by (simp add: last_for_def)
next
  case (snoc x its)
  let ?R = "fold (upsert_row oid) its rows"
  from snoc.prems(1) have r: "r \<in> set (upsert_row oid x ?R)" by simp
  show ?case
  proof (cases "oi_product_id r = fst x")
    case True
    with snoc.prems(3) have v: "v = snd x" by (simp add: last_for_snoc)
    from in_upsert_row[OF r] True snoc.prems(2)
    have "r = row_of oid x \<or> (\<exists>r0\<in>set ?R. r = set_row oid x r0)"
      by (auto simp: row_key_def)
    then show ?thesis
    proof
      assume "r = row_of oid x"
      then show ?thesis by (simp add: v row_of_def)
    next
      assume "\<exists>r0\<in>set ?R. r = set_row oid x r0"
      then obtain r0 where r0: "r0 \<in> set ?R" "r = set_row oid x r0" by blast
      from r0(2) True snoc.prems(2) have "oi_order_id r0 = oid \<and> oi_product_id r0 = fst x"
        by (auto simp: set_row_def split: if_splits)
      with r0(2) show ?thesis by (simp add: set_row_def v)
    qed
  next
    case False
    with snoc.prems(3) have l: "last_for its (oi_product_id r) = Some v"
      by (auto simp: last_for_snoc)
    from in_upsert_row[OF r] False have "r \<in> set ?R"
      by (auto simp: set_row_def row_of_def row_key_def split: if_splits)
    from snoc.IH[OF this snoc.prems(2) l] show ?thesis .
  qed
qed

subsection \<open>The blocks and the handlers\<close>

lemma ex_fault_add:
  "(\<exists>k<m + n. f (t + k)) \<longleftrightarrow> (\<exists>k<m. f (t + k)) \<or> (\<exists>k<n. f (t + m + k))"
  for m n t :: nat
proof (induction m arbitrary: t)
  case 0
  show ?case by simp
next
  case (Suc m)
  have "(\<exists>k<Suc m + n. f (t + k)) \<longleftrightarrow> f t \<or> (\<exists>k<m + n. f (Suc t + k))"
    using ex_fault_Suc[of "m + n" f t] by simp
  also have "\<dots> \<longleftrightarrow> f t \<or> (\<exists>k<m. f (Suc t + k)) \<or> (\<exists>k<n. f (Suc t + m + k))"
    by (simp only: Suc.IH)
  also have "\<dots> \<longleftrightarrow> (\<exists>k<Suc m. f (t + k)) \<or> (\<exists>k<n. f (t + Suc m + k))"
    using ex_fault_Suc[of m f t] by simp
  finally show ?case .
qed

lemma first_match:
  "map_option f (find (\<lambda>r. f r = k) xs) = (if k \<in> f ` set xs then Some k else None)"
  by (induction xs) auto

lemma execute_select_order_id:
  "execute env (select_order_id oid) (t, d) =
     (if fault env t then Inl OperationalError
      else Inr (if oid \<in> o_order_id ` set (orders d) then Some oid else None, Suc t, d))"
  by (simp add: execute_def select_order_id_def first_match)

lemma execute_insert_or_update:
  "(if (if oid \<in> o_order_id ` set (orders d) then Some oid else None) = None
    then execute env (insert_order oid wid)
    else execute env (update_order_status ''reserved'' oid)) (t, d) =
   (if fault env t then Inl OperationalError
    else Inr ((), Suc t, d\<lparr>orders := reserved_orders oid wid (orders d)\<rparr>))"
  by (simp add: execute_def insert_order_def update_order_status_def reserved_orders_def)

lemma process_order_tx_eq:
  "process_order_tx env oid wid (map item_of its) (t, d) =
     (if \<exists>k<2 + 2 * length its. fault env (t + k) then Inl OperationalError
      else Inr ((), t + (2 + 2 * length its), reserved_ledger oid wid its d))"
proof -
  let ?n = "length its"
  have split: "(\<exists>k<2 + 2 * ?n. fault env (t + k)) \<longleftrightarrow>
     (fault env t \<or> fault env (Suc t)) \<or> (\<exists>k<?n. fault env (Suc (Suc t) + k)) \<or>
     (\<exists>k<?n. fault env (Suc (Suc t) + ?n + k))"
  proof -
    have "(\<exists>k<2 + 2 * ?n. fault env (t + k)) \<longleftrightarrow>
          (\<exists>k<2. fault env (t + k)) \<or> (\<exists>k<?n + ?n. fault env (t + 2 + k))"
      using ex_fault_add[of 2 "?n + ?n" "fault env" t] by (simp add: mult_2)
    also have "(\<exists>k<2. fault env (t + k)) \<longleftrightarrow> fault env t \<or> fault env (Suc t)"
      by (auto simp: less_2_cases_iff)
    also have "(\<exists>k<?n + ?n. fault env (t + 2 + k)) \<longleftrightarrow>
       (\<exists>k<?n. fault env (Suc (Suc t) + k)) \<or> (\<exists>k<?n. fault env (Suc (Suc t) + ?n + k))"
      using ex_fault_add[of ?n ?n "fault env" "t + 2"] by simp
    finally show ?thesis .
  qed
  have "process_order_tx env oid wid (map item_of its) (t, d) =
     (if (fault env t \<or> fault env (Suc t)) \<or> (\<exists>k<?n. fault env (Suc (Suc t) + k)) \<or>
         (\<exists>k<?n. fault env (Suc (Suc t) + ?n + k)) then Inl OperationalError
      else Inr ((), t + (2 + 2 * length its), reserved_ledger oid wid its d))"
    by (simp add: process_order_tx_def bind_tx_def execute_select_order_id
        execute_insert_or_update for_each_decrement for_each_upsert reserved_ledger_def
        del: ex_simps)
  then show ?thesis by (simp only: split)
qed

lemma process_order_well_formed:
  assumes "loads_order_event env body = Inr (order_event_of oid wid its)"
  shows "process_order env body w =
     (if \<exists>k<4 + 2 * length its. fault env k then (Inl OperationalError, w)
      else if fault env (4 + 2 * length its)
      then (Inl ServiceBusError, w\<lparr>db := reserved_ledger oid wid its (db w)\<rparr>)
      else (Inr (), w\<lparr>db := reserved_ledger oid wid its (db w),
                      confirmation_queue := confirmation_queue w @ [json_dumps_order_id oid]\<rparr>))"
proof -
  let ?n = "length its"
  have split: "(\<exists>k<4 + 2 * ?n. fault env k) \<longleftrightarrow>
     fault env 0 \<or> (\<exists>k<2 + 2 * ?n. fault env (Suc 0 + k)) \<or> fault env (3 + 2 * ?n)"
  proof -
    have "(\<exists>k<4 + 2 * ?n. fault env k) \<longleftrightarrow> (\<exists>k<Suc (2 + 2 * ?n) + 1. fault env (0 + k))"
      by (simp add: numeral_eq_Suc)
    also have "\<dots> \<longleftrightarrow> (\<exists>k<Suc (2 + 2 * ?n). fault env (0 + k)) \<or> (\<exists>k<1. fault env (0 + Suc (2 + 2 * ?n) + k))"
      by (rule ex_fault_add)
    also have "(\<exists>k<Suc (2 + 2 * ?n). fault env (0 + k)) \<longleftrightarrow>
       fault env 0 \<or> (\<exists>k<2 + 2 * ?n. fault env (Suc 0 + k))"
      by (rule ex_fault_Suc)
    also have "(\<exists>k<1. fault env (0 + Suc (2 + 2 * ?n) + k)) \<longleftrightarrow> fault env (3 + 2 * ?n)"
      by (simp add: numeral_eq_Suc)
    finally show ?thesis by blast
  qed
  have "process_order env body w =
     (if fault env 0 \<or> (\<exists>k<2 + 2 * ?n. fault env (Suc 0 + k)) \<or> fault env (3 + 2 * ?n)
      then (Inl OperationalError, w)
      else if fault env (4 + 2 * length its)
      then (Inl ServiceBusError, w\<lparr>db := reserved_ledger oid wid its (db w)\<rparr>)
      else (Inr (), w\<lparr>db := reserved_ledger oid wid its (db w),
                      confirmation_queue := confirmation_queue w @ [json_dumps_order_id oid]\<rparr>))"
    by (simp add: process_order_def assms order_event_of_def getitem_def engine_begin_def
        process_order_tx_eq send_to_confirmation_queue_def numeral_eq_Suc del: ex_simps)
  then show ?thesis by (simp only: split)
qed

lemma confirm_order_tx_eq:
  "confirm_order_tx env oid (t, d) =
     (if fault env t then Inl OperationalError
      else case find (\<lambda>r. o_order_id r = oid) (orders d) of
        None \<Rightarrow> Inr (None, Suc t, d)
      | Some ord \<Rightarrow>
          if fault env (t + 1) \<or> fault env (t + 2) \<or> fault env (t + 3) then Inl OperationalError
          else Inr (Some (ord, filter (\<lambda>r. oi_order_id r = oid) (order_items d),
                      total_amount env (filter (\<lambda>r. oi_order_id r = oid) (order_items d))),
                    t + 4, confirmed_ledger oid (now env) d))"
  by (simp add: confirm_order_tx_def bind_tx_def execute_def select_order_def return_tx_def
        update_order_status_def select_order_items_def insert_invoice_def confirmed_ledger_def
        numeral_eq_Suc
        split: option.split)

lemma confirm_order_parsed:
  assumes "loads_confirmation_event env (py_replace [CHR 0x27] [CHR 0x22] body) =
             Inr \<lparr>ce_order_id = Some oid\<rparr>"
  shows "confirm_order env body w =
     (case find (\<lambda>r. o_order_id r = oid) (orders (db w)) of
        None \<Rightarrow> if fault env 0 \<or> fault env 1 \<or> fault env 2 then (Inl OperationalError, w)
                else (Inr (), w)
      | Some ord \<Rightarrow>
          if fault env 0 \<or> fault env 1 \<or> fault env 2 \<or> fault env 3 \<or> fault env 4 \<or> fault env 5
          then (Inl OperationalError, w)
          else if fault env 6
          then (Inl RenderError, w\<lparr>db := confirmed_ledger oid (now env) (db w)\<rparr>)
          else if fault env 7
          then (Inl StorageError, w\<lparr>db := confirmed_ledger oid (now env) (db w)\<rparr>)
          else if fault env 8 \<or> fault env 9 \<or> fault env 10
          then (Inl OperationalError,
                w\<lparr>db := confirmed_ledger oid (now env) (db w),
                  blobs := (blobs w)(blob_name oid \<mapsto> pdf_output env (invoice_of env oid ord (db w)))\<rparr>)
          else (Inr (),
                w\<lparr>db := (confirmed_ledger oid (now env) (db w))
                         \<lparr>orders := invoiced_orders (blob_url env (blob_name oid)) oid
                                      (orders (confirmed_ledger oid (now env) (db w)))\<rparr>,
                  blobs := (blobs w)(blob_name oid \<mapsto> pdf_output env (invoice_of env oid ord (db w)))\<rparr>))"
  by (simp add: confirm_order_def assms getitem_def engine_begin_def confirm_order_tx_eq
        generate_pdf_def upload_blob_def execute_def update_invoice_blob_def invoice_of_def
        invoiced_orders_def numeral_eq_Suc
        split: option.split)

subsection \<open>Outcomes of the handlers\<close>

lemma process_order_success:
  assumes "loads_order_event env body = Inr (order_event_of oid wid its)"
      and "process_order env body w = (Inr (), w')"
  shows "w' = w\<lparr>db := reserved_ledger oid wid its (db w),
                 confirmation_queue := confirmation_queue w @ [json_dumps_order_id oid]\<rparr>"
  using assms(2) unfolding process_order_well_formed[OF assms(1)]
  by (simp split: if_splits)

lemma decremented_untouched:
  assumes "inv_warehouse_id r = wid \<longrightarrow> inv_product_id r \<notin> fst ` set its"
  shows "decremented wid its r = r"
proof (cases "inv_warehouse_id r = wid")
  case True
  with assms have "filter (\<lambda>x. fst x = inv_product_id r) its = []"
    by (force simp: filter_empty_conv image_iff)
  then show ?thesis by (simp add: decremented_def requested_def)
next
  case False
  then show ?thesis by (simp add: decremented_def)
qed

lemma py_replace_single:
  "py_replace [a] [b] s = map (\<lambda>c. if c = a then b else c) s"
  by (induction s) auto

lemma item_complete:
  assumes "it_product_id i = Some pid" "it_quantity i = Some qty" "it_price i = Some price"
  shows "i = item_of (pid, qty, price)"
  using assms by (cases i) (simp add: item_of_def)

lemma upsert_item_complete:
  assumes "upsert_item env oid i s = Inr r"
  shows "\<exists>x. i = item_of x"
proof -
  from assms obtain pid qty price where
    "it_product_id i = Some pid" "it_quantity i = Some qty" "it_price i = Some price"
    by (auto simp: upsert_item_def bind_tx_def lift_tx_def getitem_def
        split: option.splits sum.splits)
  then have "i = item_of (pid, qty, price)" by (rule item_complete)
  then show ?thesis by blast
qed

lemma for_each_upsert_complete:
  "for_each (upsert_item env oid) items s = Inr r \<Longrightarrow> \<exists>its. items = map item_of its"
proof (induction items arbitrary: s)
  case Nil
  then show ?case by simp
next
  case (Cons i items)
  from Cons.prems obtain u s' where step: "upsert_item env oid i s = Inr (u, s')"
    and rest: "for_each (upsert_item env oid) items s' = Inr r"
    by (auto split: sum.splits)
  from upsert_item_complete[OF step] obtain x where x: "i = item_of x" by blast
  from Cons.IH[OF rest] obtain its where "items = map item_of its" by blast
  with x have "i # items = map item_of (x # its)" by simp
  then show ?case by (rule exI)
qed

lemma process_order_tx_complete:
  assumes "process_order_tx env oid wid items s = Inr r"
  shows "\<exists>its. items = map item_of its"
proof -
  from assms show ?thesis
    unfolding process_order_tx_def bind_tx_def
    by (auto split: sum.splits dest!: for_each_upsert_complete)
qed

lemma process_order_malformed:
  assumes "\<not> (\<exists>oid wid its. loads_order_event env body = Inr (order_event_of oid wid its))"
  shows "\<exists>e. process_order env body w = (Inl e, w)"
proof (cases "loads_order_event env body")
  case (Inl e)
  then show ?thesis by (simp add: process_order_def)
next
  case (Inr ev)
  show ?thesis
  proof (cases "ev_order_id ev = None \<or> ev_warehouse_id ev = None \<or> ev_items ev = None")
    case True
    then show ?thesis
      by (auto simp: process_order_def Inr getitem_def split: option.splits)
  next
    case False
    then obtain oid wid items where f: "ev_order_id ev = Some oid" "ev_warehouse_id ev = Some wid"
        "ev_items ev = Some items" by auto
    have "\<not> (\<exists>its. items = map item_of its)"
    proof
      assume "\<exists>its. items = map item_of its"
      then obtain its where "items = map item_of its" by blast
      with f have "ev = order_event_of oid wid its"
        by (cases ev) (simp add: order_event_of_def)
      with Inr assms show False by blast
    qed
    with process_order_tx_complete
    have "\<And>s. \<exists>e. process_order_tx env oid wid items s = Inl e"
      by (metis sumE)
    then obtain e where "process_order_tx env oid wid items (Suc 0, db w) = Inl e" by blast
    then show ?thesis
      by (simp add: process_order_def Inr f getitem_def engine_begin_def)
  qed
qed

lemma process_order_all_or_nothing:
  assumes "process_order env body w = (r, w')"
  shows "(w' = w \<and> r \<noteq> Inr ()) \<or>
         (\<exists>oid wid its. loads_order_event env body = Inr (order_event_of oid wid its) \<and>
            db w' = reserved_ledger oid wid its (db w) \<and> blobs w' = blobs w)"
proof (cases "\<exists>oid wid its. loads_order_event env body = Inr (order_event_of oid wid its)")
  case True
  then obtain oid wid its where wf: "loads_order_event env body = Inr (order_event_of oid wid its)"
    by blast
  from assms have "(w' = w \<and> r \<noteq> Inr ()) \<or> (db w' = reserved_ledger oid wid its (db w) \<and> blobs w' = blobs w)"
    unfolding process_order_well_formed[OF wf] by (auto split: if_splits)
  with wf show ?thesis by blast
next
  case False
  from process_order_malformed[OF False, of w] assms show ?thesis by auto
qed

lemma confirmation_event_eq:
  "ce_order_id ev = Some oid \<Longrightarrow> ev = \<lparr>ce_order_id = Some oid\<rparr>"
  by (cases ev) simp

lemma confirm_order_all_or_nothing:
  assumes "confirm_order env body w = (r, w')"
  shows "w' = w \<or>
         (\<exists>oid. loads_confirmation_event env (py_replace [CHR 0x27] [CHR 0x22] body) =
                  Inr \<lparr>ce_order_id = Some oid\<rparr> \<and>
            (db w' = confirmed_ledger oid (now env) (db w) \<and> r \<noteq> Inr () \<or>
             db w' = (confirmed_ledger oid (now env) (db w))
                       \<lparr>orders := invoiced_orders (blob_url env (blob_name oid)) oid
                                    (orders (confirmed_ledger oid (now env) (db w)))\<rparr> \<and> r = Inr ()))"
proof (cases "loads_confirmation_event env (py_replace [CHR 0x27] [CHR 0x22] body)")
  case (Inl e)
  with assms show ?thesis by (simp add: confirm_order_def)
next
  case (Inr ev)
  show ?thesis
  proof (cases "ce_order_id ev")
    case None
    with assms Inr show ?thesis by (simp add: confirm_order_def getitem_def)
  next
    case (Some oid)
    with Inr have p: "loads_confirmation_event env (py_replace [CHR 0x27] [CHR 0x22] body) =
        Inr \<lparr>ce_order_id = Some oid\<rparr>"
      by (simp add: confirmation_event_eq)
    from assms have "w' = w \<or>
            (db w' = confirmed_ledger oid (now env) (db w) \<and> r \<noteq> Inr () \<or>
             db w' = (confirmed_ledger oid (now env) (db w))
                       \<lparr>orders := invoiced_orders (blob_url env (blob_name oid)) oid
                                    (orders (confirmed_ledger oid (now env) (db w)))\<rparr> \<and> r = Inr ())"
      unfolding confirm_order_parsed[OF p]
      by (auto split: option.splits if_splits)
    with p show ?thesis by blast
  qed
qed

lemma find_present:
  "k \<in> f ` set xs \<Longrightarrow> \<exists>r\<in>set xs. find (\<lambda>r. f r = k) xs = Some r \<and> f r = k"
  by (induction xs) auto

lemma map_same_key: "(\<And>r. f (g r) = f r) \<Longrightarrow> map f (map g xs) = map f xs"
  by (induction xs) simp_all

lemma ids_reserved_orders:
  "o_order_id ` set (reserved_orders oid wid rows) = insert oid (o_order_id ` set rows)"
proof -
  have "map o_order_id (map (\<lambda>r. if o_order_id r = oid then r\<lparr>o_status := ''reserved''\<rparr> else r) rows) =
        map o_order_id rows"
    by (rule map_same_key) simp
  then have m: "map o_order_id (reserved_orders oid wid rows) =
        (if oid \<in> o_order_id ` set rows then map o_order_id rows else map o_order_id rows @ [oid])"
    by (simp add: reserved_orders_def)
  have "o_order_id ` set (reserved_orders oid wid rows) =
        set (map o_order_id (reserved_orders oid wid rows))"
    by simp
  also have "\<dots> = insert oid (o_order_id ` set rows)"
    unfolding m by auto
  finally show ?thesis .
qed

lemma ids_confirmed:
  "map o_order_id (invoiced_orders url oid (orders (confirmed_ledger oid' created d))) =
   map o_order_id (orders d)"
proof -
  have "map o_order_id (invoiced_orders url oid (orders (confirmed_ledger oid' created d))) =
        map o_order_id (orders (confirmed_ledger oid' created d))"
    unfolding invoiced_orders_def by (rule map_same_key) simp
  also have "\<dots> = map o_order_id (orders d)"
    unfolding confirmed_ledger_def by (simp del: map_map) (rule map_same_key, simp)
  finally show ?thesis .
qed

lemma status_confirmed:
  assumes "r \<in> set (invoiced_orders url oid (orders (confirmed_ledger oid created d)))"
      and "o_order_id r = oid"
  shows "o_status r = ''confirmed''"
proof -
  from assms(1) obtain y where y: "y \<in> set (orders (confirmed_ledger oid created d))"
    and r: "r = (if o_order_id y = oid then y\<lparr>o_invoice_blob := Some url\<rparr> else y)"
    unfolding invoiced_orders_def by auto
  from y have "y \<in> (\<lambda>x. if o_order_id x = oid then x\<lparr>o_status := ''confirmed''\<rparr> else x) `
      set (orders d)"
    by (simp add: confirmed_ledger_def)
  then obtain x where
    x: "y = (if o_order_id x = oid then x\<lparr>o_status := ''confirmed''\<rparr> else x)"
    by (rule imageE)
  show ?thesis
  proof (cases "o_order_id x = oid")
    case True
    with r x show ?thesis by simp
  next
    case False
    with r x assms(2) show ?thesis by simp
  qed
qed

lemma confirm_order_success:
  assumes parsed: "loads_confirmation_event env (py_replace [CHR 0x27] [CHR 0x22] body) =
                     Inr \<lparr>ce_order_id = Some oid\<rparr>"
      and present: "oid \<in> o_order_id ` set (orders (db w))"
      and ok: "confirm_order env body w = (Inr (), w')"
  shows "\<exists>ord\<in>set (orders (db w)). o_order_id ord = oid \<and>
           w' = w\<lparr>db := (confirmed_ledger oid (now env) (db w))
                         \<lparr>orders := invoiced_orders (blob_url env (blob_name oid)) oid
                                      (orders (confirmed_ledger oid (now env) (db w)))\<rparr>,
                  blobs := (blobs w)(blob_name oid \<mapsto> pdf_output env (invoice_of env oid ord (db w)))\<rparr>"
proof -
  from find_present[OF present] obtain ord where ord: "ord \<in> set (orders (db w))"
    "find (\<lambda>r. o_order_id r = oid) (orders (db w)) = Some ord" "o_order_id ord = oid"
    by blast
  from ok have "w' = w\<lparr>db := (confirmed_ledger oid (now env) (db w))
                         \<lparr>orders := invoiced_orders (blob_url env (blob_name oid)) oid
                                      (orders (confirmed_ledger oid (now env) (db w)))\<rparr>,
                  blobs := (blobs w)(blob_name oid \<mapsto> pdf_output env (invoice_of env oid ord (db w)))\<rparr>"
    unfolding confirm_order_parsed[OF parsed] ord(2) by (simp split: if_splits)
  with ord show ?thesis by blast
qed

subsection \<open>A confirmed order under further deliveries\<close>

lemma reserved_orders_other:
  assumes "r \<in> set (reserved_orders oid' wid rows)" "o_order_id r \<noteq> oid'"
  shows "r \<in> set rows"
proof (cases "oid' \<in> o_order_id ` set rows")
  case True
  with assms(1) have "r \<in> (\<lambda>r. if o_order_id r = oid' then r\<lparr>o_status := ''reserved''\<rparr> else r) ` set rows"
    by (simp add: reserved_orders_def)
  then obtain x where x: "x \<in> set rows"
    "r = (if o_order_id x = oid' then x\<lparr>o_status := ''reserved''\<rparr> else x)"
    by (rule imageE)
  with assms(2) show ?thesis by (cases "o_order_id x = oid'") simp_all
next
  case False
  with assms show ?thesis by (auto simp: reserved_orders_def)
qed

lemma confirmed_in_reserved_other:
  assumes "confirmed_in oid w" "oid' \<noteq> oid"
      and "orders (db w') = reserved_orders oid' wid (orders (db w))"
  shows "confirmed_in oid w'"
  unfolding confirmed_in_def
proof (intro conjI ballI impI)
  from assms(1) show "oid \<in> o_order_id ` set (orders (db w'))"
    by (simp add: assms(3) ids_reserved_orders confirmed_in_def)
  fix r assume r: "r \<in> set (orders (db w'))" "o_order_id r = oid"
  with assms(2,3) have "r \<in> set (orders (db w))"
    by (auto intro: reserved_orders_other)
  with assms(1) r(2) show "o_status r = ''confirmed''"
    by (simp add: confirmed_in_def)
qed

lemma confirmed_ledger_status:
  assumes "r \<in> set (orders (confirmed_ledger oid' created d))"
  shows "\<exists>x\<in>set (orders d). o_order_id x = o_order_id r \<and>
           (o_status r = o_status x \<or> o_status r = ''confirmed'')"
proof -
  from assms have "r \<in> (\<lambda>x. if o_order_id x = oid' then x\<lparr>o_status := ''confirmed''\<rparr> else x) `
      set (orders d)"
    by (simp add: confirmed_ledger_def)
  then obtain x where x: "x \<in> set (orders d)"
    "r = (if o_order_id x = oid' then x\<lparr>o_status := ''confirmed''\<rparr> else x)"
    by (rule imageE)
  then show ?thesis by (cases "o_order_id x = oid'") auto
qed

lemma invoiced_orders_status:
  assumes "r \<in> set (invoiced_orders url oid' rows)"
  shows "\<exists>x\<in>set rows. o_order_id x = o_order_id r \<and> o_status r = o_status x"
proof -
  from assms obtain x where x: "x \<in> set rows"
    "r = (if o_order_id x = oid' then x\<lparr>o_invoice_blob := Some url\<rparr> else x)"
    unfolding invoiced_orders_def by auto
  then show ?thesis by (cases "o_order_id x = oid'") auto
qed

lemma confirmed_in_confirmed:
  assumes c: "confirmed_in oid w"
      and o: "orders (db w') = orders (confirmed_ledger oid' created (db w)) \<or>
              orders (db w') = invoiced_orders url oid' (orders (confirmed_ledger oid' created (db w)))"
  shows "confirmed_in oid w'"
  unfolding confirmed_in_def
proof (intro conjI ballI impI)
  have a: "map o_order_id (orders (confirmed_ledger oid' created (db w))) = map o_order_id (orders (db w))"
    unfolding confirmed_ledger_def by (simp del: map_map) (rule map_same_key, simp)
  from o have "map o_order_id (orders (db w')) = map o_order_id (orders (db w))"
    by (auto simp: a ids_confirmed)
  then have "set (map o_order_id (orders (db w'))) = set (map o_order_id (orders (db w)))"
    by (rule arg_cong)
  with c show "oid \<in> o_order_id ` set (orders (db w'))"
    by (simp add: confirmed_in_def)
  fix r assume r: "r \<in> set (orders (db w'))" "o_order_id r = oid"
  have "\<exists>x\<in>set (orders (db w)). o_order_id x = o_order_id r \<and>
           (o_status r = o_status x \<or> o_status r = ''confirmed'')"
    using o
  proof
    assume "orders (db w') = orders (confirmed_ledger oid' created (db w))"
    with r(1) show ?thesis by (simp add: confirmed_ledger_status)
  next
    assume "orders (db w') = invoiced_orders url oid' (orders (confirmed_ledger oid' created (db w)))"
    with r(1) obtain y where y: "y \<in> set (orders (confirmed_ledger oid' created (db w)))"
      "o_order_id y = o_order_id r" "o_status r = o_status y"
      by (auto dest: invoiced_orders_status)
    from confirmed_ledger_status[OF y(1)] y(2,3) show ?thesis by auto
  qed
  with c r(2) show "o_status r = ''confirmed''"
    by (auto simp: confirmed_in_def)
qed

lemma deliver_keeps_confirmed:
  assumes c: "confirmed_in oid w" and n: "\<not> reservation_for oid m"
  shows "confirmed_in oid (deliver m w)"
proof (cases m)
  case (Orders_queue env body)
  obtain r w' where p: "process_order env body w = (r, w')" by (cases "process_order env body w")
  from process_order_all_or_nothing[OF p] show ?thesis
  proof
    assume "w' = w \<and> r \<noteq> Inr ()"
    with c p Orders_queue show ?thesis by simp
  next
    assume "\<exists>oid' wid its. loads_order_event env body = Inr (order_event_of oid' wid its) \<and>
            db w' = reserved_ledger oid' wid its (db w) \<and> blobs w' = blobs w"
    then obtain oid' wid its where l: "loads_order_event env body = Inr (order_event_of oid' wid its)"
      and d: "db w' = reserved_ledger oid' wid its (db w)" by blast
    from n l Orders_queue have "oid' \<noteq> oid"
      by (auto simp: reservation_for_def order_event_of_def)
    moreover from d have "orders (db w') = reserved_orders oid' wid (orders (db w))"
      by (simp add: reserved_ledger_def)
    ultimately have "confirmed_in oid w'" using c by (rule confirmed_in_reserved_other[rotated])
    with p Orders_queue show ?thesis by simp
  qed
next
  case (Confirmation_queue env body)
  obtain r w' where p: "confirm_order env body w = (r, w')" by (cases "confirm_order env body w")
  from confirm_order_all_or_nothing[OF p] have "confirmed_in oid w'"
  proof (elim disjE exE conjE)
    assume "w' = w"
    with c show ?thesis by simp
  next
    fix oid' assume "db w' = confirmed_ledger oid' (now env) (db w)"
    then show ?thesis
      by (intro confirmed_in_confirmed[OF c, where oid' = oid' and created = "now env"
            and url = "blob_url env (blob_name oid')"]) simp
  next
    fix oid' assume "db w' = (confirmed_ledger oid' (now env) (db w))
                       \<lparr>orders := invoiced_orders (blob_url env (blob_name oid')) oid'
                                    (orders (confirmed_ledger oid' (now env) (db w)))\<rparr>"
    then show ?thesis
      by (intro confirmed_in_confirmed[OF c, where oid' = oid' and created = "now env"
            and url = "blob_url env (blob_name oid')"]) simp
  qed
  with p Confirmation_queue show ?thesis by simp
qed

subsection \<open>The rows a reservation leaves\<close>

lemma filter_key_singleton:
  "distinct (map f xs) \<Longrightarrow> x \<in> set xs \<Longrightarrow> filter (\<lambda>y. f y = f x) xs = [x]"
proof (induction xs)
  case Nil
  then show ?case by simp
next
  case (Cons a xs)
  show ?case
  proof (cases "a = x")
    case True
    with Cons.prems(1) have "filter (\<lambda>y. f y = f x) xs = []"
      by (force simp: filter_empty_conv image_iff)
    with True show ?thesis by simp
  next
    case False
    with Cons.prems have "x \<in> set xs" "f a \<noteq> f x" by auto
    with Cons show ?thesis by simp
  qed
qed

lemma last_for_last:
  "pid \<in> fst ` set its \<Longrightarrow>
   last_for its pid = Some (snd (last (filter (\<lambda>x. fst x = pid) its)))"
proof (induction its rule: rev_induct)
  case Nil
  then show ?case by simp
next
  case (snoc x its)
  show ?case
  proof (cases "fst x = pid")
    case True
    then show ?thesis by (simp add: last_for_snoc)
  next
    case False
    with snoc.prems have "pid \<in> fst ` set its" by auto
    with snoc.IH False show ?thesis by (simp add: last_for_snoc)
  qed
qed

lemma row_eq:
  "oi_order_id r = oid \<Longrightarrow> oi_product_id r = fst x \<Longrightarrow> (oi_quantity r, oi_price r) = snd x \<Longrightarrow>
   r = row_of oid x"
  by (cases r) (auto simp: row_of_def prod_eq_iff)

lemma upserted_row:
  assumes r: "r \<in> set (fold (upsert_row oid) its rows)"
      and o: "oi_order_id r = oid" and p: "oi_product_id r = pid" and i: "pid \<in> fst ` set its"
  shows "r = row_of oid (last (filter (\<lambda>x. fst x = pid) its))"
proof -
  let ?x = "last (filter (\<lambda>x. fst x = pid) its)"
  from i have "filter (\<lambda>x. fst x = pid) its \<noteq> []"
    by (auto simp: filter_empty_conv)
  then have "?x \<in> set (filter (\<lambda>x. fst x = pid) its)" by (rule last_in_set)
  then have f: "fst ?x = pid" by simp
  from last_for_last[OF i] p have "last_for its (oi_product_id r) = Some (snd ?x)" by simp
  from values_fold_upsert[OF r o this] have "(oi_quantity r, oi_price r) = snd ?x" .
  with o p f show ?thesis by (intro row_eq) simp_all
qed

lemma upserted_row_unique:
  assumes d: "distinct (map row_key rows)" and i: "pid \<in> fst ` set its"
  shows "filter (\<lambda>r. oi_order_id r = oid \<and> oi_product_id r = pid) (fold (upsert_row oid) its rows) =
         [row_of oid (last (filter (\<lambda>x. fst x = pid) its))]"
proof -
  let ?R = "fold (upsert_row oid) its rows"
  from i have "(oid, pid) \<in> row_key ` set ?R" by (auto simp: keys_fold_upsert)
  then obtain r where r: "r \<in> set ?R" "row_key r = (oid, pid)" by auto
  then have "oi_order_id r = oid" "oi_product_id r = pid" by (simp_all add: row_key_def)
  from upserted_row[OF r(1) this i] have e: "r = row_of oid (last (filter (\<lambda>x. fst x = pid) its))" .
  have "distinct (map row_key ?R)" using d by (rule distinct_fold_upsert)
  from filter_key_singleton[OF this r(1)] have "filter (\<lambda>y. row_key y = (oid, pid)) ?R = [r]"
    by (simp only: r(2))
  moreover have "filter (\<lambda>r. oi_order_id r = oid \<and> oi_product_id r = pid) ?R =
      filter (\<lambda>y. row_key y = (oid, pid)) ?R"
    by (simp add: row_key_def)
  ultimately show ?thesis by (simp only: e)
qed

lemma requested_distinct:
  "distinct (map fst its) \<Longrightarrow> x \<in> set its \<Longrightarrow> requested its (fst x) = fst (snd x)"
proof -
  assume "distinct (map fst its)" "x \<in> set its"
  then have "filter (\<lambda>y. fst y = fst x) its = [x]" by (rule filter_key_singleton)
  then show ?thesis by (simp add: requested_def)
qed

lemma last_distinct:
  "distinct (map fst its) \<Longrightarrow> x \<in> set its \<Longrightarrow> last (filter (\<lambda>y. fst y = fst x) its) = x"
proof -
  assume "distinct (map fst its)" "x \<in> set its"
  then have "filter (\<lambda>y. fst y = fst x) its = [x]" by (rule filter_key_singleton)
  then show ?thesis by simp
qed

lemma reserved_rows_of_order:
  assumes dist: "distinct (map fst its)"
      and key: "distinct (map row_key rows)"
      and only: "oi_product_id ` set (filter (\<lambda>r. oi_order_id r = oid) rows) \<subseteq> fst ` set its"
  shows "set (filter (\<lambda>r. oi_order_id r = oid) (fold (upsert_row oid) its rows)) = row_of oid ` set its"
    and "length (filter (\<lambda>r. oi_order_id r = oid) (fold (upsert_row oid) its rows)) = length its"
proof -
  let ?R = "fold (upsert_row oid) its rows"
  let ?F = "filter (\<lambda>r. oi_order_id r = oid) ?R"
  have pids: "oi_product_id r \<in> fst ` set its" if "r \<in> set ?F" for r
  proof -
    from that have r: "r \<in> set ?R" "oi_order_id r = oid" by simp_all
    then have "row_key r \<in> row_key ` set rows \<union> (\<lambda>x. (oid, fst x)) ` set its"
      using keys_fold_upsert[of oid its rows] by blast
    then show ?thesis
    proof
      assume "row_key r \<in> row_key ` set rows"
      then obtain r0 where r0: "r0 \<in> set rows" "row_key r0 = row_key r" by auto
      with r(2) have "r0 \<in> set (filter (\<lambda>r. oi_order_id r = oid) rows)" "oi_product_id r0 = oi_product_id r"
        by (simp_all add: row_key_def)
      with only show ?thesis by (metis image_eqI subsetD)
    next
      assume "row_key r \<in> (\<lambda>x. (oid, fst x)) ` set its"
      then show ?thesis by (auto simp: row_key_def)
    qed
  qed
  show s: "set ?F = row_of oid ` set its"
  proof (intro equalityI subsetI)
    fix r assume r: "r \<in> set ?F"
    from pids[OF r] obtain x where x: "x \<in> set its" "oi_product_id r = fst x" by auto
    from r have "r \<in> set ?R" "oi_order_id r = oid" by simp_all
    from upserted_row[OF this x(2)] x(1)
    have "r = row_of oid (last (filter (\<lambda>y. fst y = fst x) its))" by simp
    with last_distinct[OF dist x(1)] x(1) show "r \<in> row_of oid ` set its" by simp
  next
    fix r assume "r \<in> row_of oid ` set its"
    then obtain x where x: "x \<in> set its" "r = row_of oid x" by auto
    then have i: "fst x \<in> fst ` set its" by simp
    from upserted_row_unique[OF key i, of oid] last_distinct[OF dist x(1)]
    have "filter (\<lambda>r. oi_order_id r = oid \<and> oi_product_id r = fst x) ?R = [row_of oid x]" by simp
    then have "row_of oid x \<in> set (filter (\<lambda>r. oi_order_id r = oid \<and> oi_product_id r = fst x) ?R)"
      by simp
    with x(2) show "r \<in> set ?F" by simp
  qed
  have "distinct (map row_key ?R)" using key by (rule distinct_fold_upsert)
  then have "distinct (map row_key ?F)" by (rule distinct_map_filter)
  then have dF: "distinct ?F" by (simp add: distinct_map)
  have inj: "inj_on (row_of oid) (set its)"
  proof (rule inj_onI)
    fix x y assume "x \<in> set its" "y \<in> set its" "row_of oid x = row_of oid y"
    then show "x = y" by (auto simp: row_of_def prod_eq_iff)
  qed
  from dist have di: "distinct its" by (simp add: distinct_map)
  have "length ?F = card (set ?F)" using dF by (rule distinct_card[symmetric])
  also have "\<dots> = card (row_of oid ` set its)" by (simp only: s)
  also have "\<dots> = card (set its)" using inj by (rule card_image)
  also have "\<dots> = length its" using di by (rule distinct_card)
  finally show "length ?F = length its" .
qed

lemma reserved_orders_status:
  assumes "r \<in> set (reserved_orders oid wid rows)" "o_order_id r = oid"
  shows "o_status r = ''reserved''"
proof (cases "oid \<in> o_order_id ` set rows")
  case True
  with assms(1) have "r \<in> (\<lambda>r. if o_order_id r = oid then r\<lparr>o_status := ''reserved''\<rparr> else r) ` set rows"
    by (simp add: reserved_orders_def)
  then obtain x where "r = (if o_order_id x = oid then x\<lparr>o_status := ''reserved''\<rparr> else x)"
    by (rule imageE)
  with assms(2) show ?thesis by (cases "o_order_id x = oid") simp_all
next
  case False
  with assms have "r = \<lparr>o_order_id = oid, o_warehouse_id = wid, o_status = ''reserved'',
                    o_invoice_blob = None\<rparr>"
    by (auto simp: reserved_orders_def)
  then show ?thesis by simp
qed

lemma fold_set_row:
  "fold (set_row oid) its r =
     (if oi_order_id r = oid
      then (case last_for its (oi_product_id r) of
              None \<Rightarrow> r
            | Some v \<Rightarrow> r\<lparr>oi_quantity := fst v, oi_price := snd v\<rparr>)
      else r)"
proof (induction its rule: rev_induct)
  case Nil
  show ?case by (simp add: last_for_def)
next
  case (snoc x its)
  have step: "fold (set_row oid) (its @ [x]) r = set_row oid x (fold (set_row oid) its r)"
    by simp
  show ?case
    unfolding step snoc.IH
    by (auto simp: set_row_def last_for_snoc split: option.split)
qed

lemma fold_upsert_present:
  "(\<lambda>x. (oid, fst x)) ` set its \<subseteq> row_key ` set rows \<Longrightarrow>
   fold (upsert_row oid) its rows = map (fold (set_row oid) its) rows"
proof (induction its arbitrary: rows)
  case Nil
  show ?case by simp
next
  case (Cons x its)
  from Cons.prems have here: "(oid, fst x) \<in> row_key ` set rows" by simp
  have keys: "row_key ` set (map (set_row oid x) rows) = row_key ` set rows"
    by (simp add: image_image row_key_set_row)
  from Cons.prems have "(\<lambda>x. (oid, fst x)) ` set its \<subseteq> row_key ` set (map (set_row oid x) rows)"
    unfolding keys by simp
  from Cons.IH[OF this] here show ?case
    by (simp add: upsert_row_def)
qed

lemma fold_upsert_twice:
  "fold (upsert_row oid) its (fold (upsert_row oid) its rows) = fold (upsert_row oid) its rows"
proof -
  let ?R = "fold (upsert_row oid) its rows"
  have "(\<lambda>x. (oid, fst x)) ` set its \<subseteq> row_key ` set ?R"
    by (simp add: keys_fold_upsert)
  then have "fold (upsert_row oid) its ?R = map (fold (set_row oid) its) ?R"
    by (rule fold_upsert_present)
  also have "\<dots> = ?R"
  proof (rule map_idI)
    fix r assume r: "r \<in> set ?R"
    show "fold (set_row oid) its r = r"
    proof (cases "oi_order_id r = oid")
      case False
      then show ?thesis by (simp add: fold_set_row)
    next
      case True
      show ?thesis
      proof (cases "last_for its (oi_product_id r)")
        case None
        with True show ?thesis by (simp add: fold_set_row)
      next
        case (Some v)
        from values_fold_upsert[OF r True Some] have "(oi_quantity r, oi_price r) = v" .
        then have "r\<lparr>oi_quantity := fst v, oi_price := snd v\<rparr> = r" by auto
        with True Some show ?thesis by (simp add: fold_set_row)
      qed
    qed
  qed
  finally show ?thesis .
qed

lemma reserved_orders_twice:
  "reserved_orders oid wid (reserved_orders oid wid rows) = reserved_orders oid wid rows"
proof -
  let ?R = "reserved_orders oid wid rows"
  have "oid \<in> o_order_id ` set ?R" by (simp add: ids_reserved_orders)
  then have "reserved_orders oid wid ?R =
      map (\<lambda>r. if o_order_id r = oid then r\<lparr>o_status := ''reserved''\<rparr> else r) ?R"
    by (simp add: reserved_orders_def)
  also have "\<dots> = ?R"
  proof (rule map_idI)
    fix r assume "r \<in> set ?R"
    then have "o_order_id r = oid \<Longrightarrow> o_status r = ''reserved''"
      by (rule reserved_orders_status)
    then show "(if o_order_id r = oid then r\<lparr>o_status := ''reserved''\<rparr> else r) = r"
      by auto
  qed
  finally show ?thesis .
qed

lemma decremented_twice:
  "decremented wid its (decremented wid its r) =
     (if inv_warehouse_id r = wid
      then r\<lparr>inv_quantity := inv_quantity r - 2 * requested its (inv_product_id r)\<rparr> else r)"
  by (simp add: decremented_def)

lemma count_key_one:
  assumes "distinct (map f xs)" "k \<in> f ` set xs"
  shows "length (filter (\<lambda>r. f r = k) xs) = 1"
proof -
  from assms(2) obtain x where x: "x \<in> set xs" "f x = k" by auto
  from filter_key_singleton[OF assms(1) x(1)] x(2) show ?thesis by simp
qed

lemma distinct_reserved_orders:
  assumes "distinct (map o_order_id rows)"
  shows "distinct (map o_order_id (reserved_orders oid wid rows))"
proof -
  have "map o_order_id (map (\<lambda>r. if o_order_id r = oid then r\<lparr>o_status := ''reserved''\<rparr> else r) rows) =
        map o_order_id rows"
    by (rule map_same_key) simp
  then have "map o_order_id (reserved_orders oid wid rows) =
        (if oid \<in> o_order_id ` set rows then map o_order_id rows else map o_order_id rows @ [oid])"
    by (simp add: reserved_orders_def)
  with assms show ?thesis by auto
qed

subsection \<open>A failure inside a block, and after one\<close>

lemma process_order_fault_in_block:
  assumes "loads_order_event env body = Inr (order_event_of oid wid its)"
      and "k < 4 + 2 * length its" "fault env k"
  shows "process_order env body w = (Inl OperationalError, w)"
proof -
  from assms(2,3) have "\<exists>k<4 + 2 * length its. fault env k" by blast
  then show ?thesis by (simp only: process_order_well_formed[OF assms(1)] if_True)
qed

lemma fault_before_six:
  "list_ex f [0..<6] \<longleftrightarrow> f 0 \<or> f 1 \<or> f 2 \<or> f 3 \<or> f 4 \<or> f (5 :: nat)"
  by (simp add: upt_rec numeral_eq_Suc)

lemma fault_from_six:
  assumes "6 \<le> k \<and> k \<le> 10 \<and> f k"
  shows "f 6 \<or> f 7 \<or> f 8 \<or> f 9 \<or> f (10 :: nat)"
proof -
  from assms have "k = 6 \<or> k = 7 \<or> k = 8 \<or> k = 9 \<or> k = 10" by arith
  with assms show ?thesis by blast
qed

lemma confirm_order_fault_in_first_block:
  assumes p: "loads_confirmation_event env (py_replace [CHR 0x27] [CHR 0x22] body) =
                Inr \<lparr>ce_order_id = Some oid\<rparr>"
      and present: "oid \<in> o_order_id ` set (orders (db w))"
      and "j < 6" "fault env j"
  shows "confirm_order env body w = (Inl OperationalError, w)"
proof -
  from find_present[OF present] obtain ord where
    f: "find (\<lambda>r. o_order_id r = oid) (orders (db w)) = Some ord" by blast
  from assms(3) have "j = 0 \<or> j = 1 \<or> j = 2 \<or> j = 3 \<or> j = 4 \<or> j = 5" by arith
  with assms(4)
  have "fault env 0 \<or> fault env 1 \<or> fault env 2 \<or> fault env 3 \<or> fault env 4 \<or> fault env 5"
    by blast
  then show ?thesis by (simp add: confirm_order_parsed[OF p] f)
qed

lemma confirm_order_fault_after_first_block:
  assumes p: "loads_confirmation_event env (py_replace [CHR 0x27] [CHR 0x22] body) =
                Inr \<lparr>ce_order_id = Some oid\<rparr>"
      and present: "oid \<in> o_order_id ` set (orders (db w))"
      and before: "\<not> list_ex (fault env) [0..<6]"
      and here: "6 \<le> k" "k \<le> 10" "fault env k"
  shows "\<exists>e w'. confirm_order env body w = (Inl e, w') \<and>
           db w' = confirmed_ledger oid (now env) (db w)"
proof -
  from find_present[OF present] obtain ord where
    f: "find (\<lambda>r. o_order_id r = oid) (orders (db w)) = Some ord" by blast
  from before have b: "\<not> fault env 0" "\<not> fault env 1" "\<not> fault env 2" "\<not> fault env 3"
      "\<not> fault env 4" "\<not> fault env 5"
    by (simp_all add: fault_before_six)
  from here have "fault env 6 \<or> fault env 7 \<or> fault env 8 \<or> fault env 9 \<or> fault env 10"
    by (intro fault_from_six[of k]) simp
  with b show ?thesis
    by (cases "fault env 6"; cases "fault env 7") (simp_all add: confirm_order_parsed[OF p] f)
qed

subsection \<open>The status an invocation leaves\<close>

lemma invocations_keep_confirmed:
  assumes "\<not> list_ex (reservation_for oid) ms" and "confirmed_in oid w"
  shows "confirmed_in oid (invocations ms w)"
  using assms unfolding invocations_def
proof (induction ms arbitrary: w)
  case Nil
  then show ?case by simp
next
  case (Cons m ms)
  from Cons.prems have "confirmed_in oid (deliver m w)"
    by (simp add: deliver_keeps_confirmed)
  with Cons.prems(1) Cons.IH show ?case by simp
qed

lemma confirmed_in_after_confirmation:
  assumes parsed: "loads_confirmation_event env (py_replace [CHR 0x27] [CHR 0x22] body) =
                     Inr \<lparr>ce_order_id = Some oid\<rparr>"
      and present: "oid \<in> o_order_id ` set (orders (db w))"
      and ok: "confirm_order env body w = (Inr (), w')"
  shows "confirmed_in oid w'"
proof -
  from confirm_order_success[OF assms] obtain ord where
    "w' = w\<lparr>db := (confirmed_ledger oid (now env) (db w))
                         \<lparr>orders := invoiced_orders (blob_url env (blob_name oid)) oid
                                      (orders (confirmed_ledger oid (now env) (db w)))\<rparr>,
                  blobs := (blobs w)(blob_name oid \<mapsto> pdf_output env (invoice_of env oid ord (db w)))\<rparr>"
    by blast
  then have o: "orders (db w') = invoiced_orders (blob_url env (blob_name oid)) oid
                                      (orders (confirmed_ledger oid (now env) (db w)))"
    by simp
  have "o_order_id ` set (orders (db w')) = set (map o_order_id (orders (db w')))" by simp
  also have "\<dots> = set (map o_order_id (orders (db w)))" unfolding o by (simp only: ids_confirmed)
  finally have "oid \<in> o_order_id ` set (orders (db w'))" using present by simp
  then show ?thesis
    unfolding confirmed_in_def o using status_confirmed by blast
qed

lemma reserved_in_after_reservation:
  assumes "reservation_for oid (Orders_queue env body)"
      and "process_order env body w = (Inr (), w')"
  shows "reserved_in oid w'"
proof -
  have "\<exists>oid' wid its. loads_order_event env body = Inr (order_event_of oid' wid its)"
  proof (rule ccontr)
    assume "\<not> ?thesis"
    from process_order_malformed[OF this, of w] assms(2) show False by simp
  qed
  then obtain oid' wid its where
    wf: "loads_order_event env body = Inr (order_event_of oid' wid its)" by blast
  with assms(1) have "oid' = oid" by (simp add: reservation_for_def order_event_of_def)
  with wf have wf': "loads_order_event env body = Inr (order_event_of oid wid its)" by simp
  from process_order_success[OF wf' assms(2)]
  have o: "orders (db w') = reserved_orders oid wid (orders (db w))"
    by (simp add: reserved_ledger_def)
  show ?thesis
    unfolding reserved_in_def o
    by (simp add: ids_reserved_orders reserved_orders_status)
qed

subsection \<open>The scenario, evaluated\<close>

lemma str_int_1: "str_int 1 = ''1''"
  by code_simp

lemma str_int_1900: "str_int 1900 = ''1900''"
  by code_simp

lemma scenario_loads_order:
  "loads_order_event scenario_env scenario_order_body = Inr (order_event_of 1 5 [(10, 2, 950)])"
  by (simp add: scenario_env_def)

lemma scenario_loads_confirmation:
  \<open>loads_confirmation_event scenario_env (py_replace [CHR 0x27] [CHR 0x22] ''{"order_id": 1}'') =
     Inr \<lparr>ce_order_id = Some 1\<rparr>\<close>
  by (simp add: scenario_env_def py_replace_single)

lemma scenario_no_fault: "fault scenario_env k = False"
  by (simp add: scenario_env_def)

lemma scenario_reserves:
  "process_order scenario_env scenario_order_body scenario_world = (Inr (), scenario_reserved)"
  by (simp add: process_order_well_formed[OF scenario_loads_order] scenario_no_fault)
     (simp add: scenario_world_def scenario_reserved_def reserved_ledger_def reserved_orders_def
       decremented_def requested_def upsert_row_def row_of_def json_dumps_order_id_def str_int_1)

lemma scenario_confirms:
  \<open>confirm_order scenario_env ''{"order_id": 1}'' scenario_reserved = (Inr (), scenario_confirmed)\<close>
  by (simp add: confirm_order_parsed[OF scenario_loads_confirmation] scenario_no_fault)
     (simp add: scenario_reserved_def scenario_confirmed_def confirmed_ledger_def
       invoiced_orders_def blob_name_def str_int_1 invoice_of_def invoice_document_def
       total_amount_def line_total_def scenario_env_def str_int_1900)

lemma scenario_confirmed_in: "confirmed_in 1 scenario_confirmed"
  by (simp add: confirmed_in_def scenario_confirmed_def)

lemma scenario_loads_duplicate:
  "loads_order_event scenario_env scenario_duplicate_body =
     Inr (order_event_of 1 5 [(10, 2, 950), (10, 3, 800)])"
  by (simp add: scenario_env_def scenario_duplicate_body_def scenario_order_body_def)

lemma scenario_reserves_duplicate:
  "process_order scenario_env scenario_duplicate_body scenario_world = (Inr (), scenario_duplicated)"
  by (simp add: process_order_well_formed[OF scenario_loads_duplicate] scenario_no_fault)
     (simp add: scenario_world_def scenario_duplicated_def reserved_ledger_def reserved_orders_def
       decremented_def requested_def upsert_row_def row_of_def set_row_def row_key_def
       json_dumps_order_id_def str_int_1)

lemma scenario_event_unique:
  "loads_order_event scenario_env scenario_order_body = Inr (order_event_of oid wid its)
   \<Longrightarrow> oid = 1 \<and> wid = 5 \<and> its = [(10, 2, 950)]"
  by (auto simp: scenario_loads_order order_event_of_def item_of_def map_eq_Cons_conv
      split: prod.splits)

lemma scenario_outage_fault: "fault (scenario_outage k) = (\<lambda>t. t = k)"
  by (simp add: scenario_outage_def)

lemma scenario_outage_now: "now (scenario_outage k) = 0"
  by (simp add: scenario_outage_def scenario_env_def)

lemma scenario_outage_loads_confirmation:
  \<open>loads_confirmation_event (scenario_outage k)
     (py_replace [CHR 0x27] [CHR 0x22] ''{"order_id": 1}'') = Inr \<lparr>ce_order_id = Some 1\<rparr>\<close>
  by (simp add: scenario_outage_def scenario_env_def py_replace_single)

lemma scenario_incomplete_malformed:
  "\<nexists>oid wid its. loads_order_event scenario_incomplete_env scenario_order_body =
      Inr (order_event_of oid wid its)"
  by (auto simp: scenario_incomplete_env_def order_event_of_def item_of_def map_eq_Cons_conv
      split: prod.splits)

lemma scenario_incomplete_raises:
  "fst (process_order scenario_incomplete_env scenario_order_body scenario_world) =
     Inl (KeyError ''price'')"
  by (simp add: process_order_def scenario_incomplete_env_def scenario_env_def getitem_def
      engine_begin_def process_order_tx_def bind_tx_def execute_def lift_tx_def
      decrement_item_def upsert_item_def select_order_id_def insert_order_def
      update_inventory_def upsert_order_item_def scenario_world_def)

subsection \<open>Decimal text is injective\<close>









section \<open>The claims\<close>

subsection \<open>C1: what a reservation leaves\<close>

text \<open>
  C1, as stated, fails for an event that names a product twice: the upsert keeps one row for
  the pair of order and product, and each occurrence decrements the inventory. The event
  below has two items; one row of \<^verbatim>\<open>order_items\<close> exists afterwards, and the inventory row
  went from 1 to -4, which is neither 1 - 2 nor 1 - 3.
\<close>

theorem reservation_effect_counterexample:
  "loads_order_event scenario_env scenario_duplicate_body =
     Inr (order_event_of 1 5 [(10, 2, 950), (10, 3, 800)])
   \<and> process_order scenario_env scenario_duplicate_body scenario_world = (Inr (), scenario_duplicated)
   \<and> length [(10 :: int, 2 :: int, 950 :: int), (10, 3, 800)] = 2
   \<and> length (filter (\<lambda>r. oi_order_id r = 1) (order_items (db scenario_duplicated))) = 1
   \<and> map inv_quantity (inventory (db scenario_world)) = [1, 4]
   \<and> map inv_quantity (inventory (db scenario_duplicated)) = [- 4, 4]"
  using scenario_loads_duplicate scenario_reserves_duplicate
  by (simp add: scenario_duplicated_def scenario_world_def)

text \<open>
  C1, amended. For an event with N items whose product ids are pairwise distinct, processed
  successfully on a ledger whose \<^verbatim>\<open>order_items\<close> rows have distinct keys (order, product) and
  hold, for this order, rows of the event's products only: the order has a row, every row of
  the order has status \<^verbatim>\<open>reserved\<close>, \<^verbatim>\<open>order_items\<close> holds exactly N rows for the order and they
  are the event's items (product, quantity, price), and an inventory row of an item's product
  in the event's warehouse holds its former quantity minus the item's quantity, whatever the
  sign of the result.
\<close>

theorem reservation_effect:
  assumes event: "loads_order_event env body = Inr (order_event_of oid wid its)"
      and ok: "process_order env body w = (Inr (), w')"
      and dist: "distinct (map fst its)"
      and key: "distinct (map row_key (order_items (db w)))"
      and only: "oi_product_id ` set (filter (\<lambda>r. oi_order_id r = oid) (order_items (db w)))
                   \<subseteq> fst ` set its"
  shows "oid \<in> o_order_id ` set (orders (db w'))
       \<and> (\<forall>r\<in>set (orders (db w')). o_order_id r = oid \<longrightarrow> o_status r = ''reserved'')
       \<and> length (filter (\<lambda>r. oi_order_id r = oid) (order_items (db w'))) = length its
       \<and> set (filter (\<lambda>r. oi_order_id r = oid) (order_items (db w'))) =
           (\<lambda>x. \<lparr>oi_order_id = oid, oi_product_id = fst x, oi_quantity = fst (snd x),
                  oi_price = snd (snd x)\<rparr>) ` set its
       \<and> length (inventory (db w')) = length (inventory (db w))
       \<and> (\<forall>k<length (inventory (db w)). \<forall>x\<in>set its.
            inv_product_id (inventory (db w) ! k) = fst x \<and>
            inv_warehouse_id (inventory (db w) ! k) = wid \<longrightarrow>
            inventory (db w') ! k =
              (inventory (db w) ! k)\<lparr>inv_quantity := inv_quantity (inventory (db w) ! k) - fst (snd x)\<rparr>)"
proof -
  from process_order_success[OF event ok]
  have d: "db w' = reserved_ledger oid wid its (db w)" by simp
  then have o: "orders (db w') = reserved_orders oid wid (orders (db w))"
    and i: "inventory (db w') = map (decremented wid its) (inventory (db w))"
    and t: "order_items (db w') = fold (upsert_row oid) its (order_items (db w))"
    by (simp_all add: reserved_ledger_def)
  have 1: "oid \<in> o_order_id ` set (orders (db w'))"
    by (simp add: o ids_reserved_orders)
  have 2: "\<forall>r\<in>set (orders (db w')). o_order_id r = oid \<longrightarrow> o_status r = ''reserved''"
    by (auto simp: o intro: reserved_orders_status)
  have 3: "length (filter (\<lambda>r. oi_order_id r = oid) (order_items (db w'))) = length its"
    unfolding t using dist key only by (rule reserved_rows_of_order(2))
  have "set (filter (\<lambda>r. oi_order_id r = oid) (order_items (db w'))) = row_of oid ` set its"
    unfolding t using dist key only by (rule reserved_rows_of_order(1))
  then have 4: "set (filter (\<lambda>r. oi_order_id r = oid) (order_items (db w'))) =
           (\<lambda>x. \<lparr>oi_order_id = oid, oi_product_id = fst x, oi_quantity = fst (snd x),
                  oi_price = snd (snd x)\<rparr>) ` set its"
    by (simp add: row_of_def[abs_def])
  have 5: "length (inventory (db w')) = length (inventory (db w))"
    by (simp add: i)
  have 6: "inventory (db w') ! k =
              (inventory (db w) ! k)\<lparr>inv_quantity := inv_quantity (inventory (db w) ! k) - fst (snd x)\<rparr>"
    if "k < length (inventory (db w))" "x \<in> set its"
      "inv_product_id (inventory (db w) ! k) = fst x" "inv_warehouse_id (inventory (db w) ! k) = wid"
    for k x
    using that by (simp add: i decremented_def requested_distinct[OF dist])
  from 1 2 3 4 5 6 show ?thesis by blast
qed

theorem reservation_effect_witness:
  "loads_order_event scenario_env scenario_order_body = Inr (order_event_of 1 5 [(10, 2, 950)])
   \<and> process_order scenario_env scenario_order_body scenario_world = (Inr (), scenario_reserved)
   \<and> distinct (map fst [(10 :: int, 2 :: int, 950 :: int)])
   \<and> distinct (map row_key (order_items (db scenario_world)))
   \<and> oi_product_id ` set (filter (\<lambda>r. oi_order_id r = 1) (order_items (db scenario_world)))
        \<subseteq> fst ` set [(10 :: int, 2 :: int, 950 :: int)]
   \<and> length (filter (\<lambda>r. oi_order_id r = 1) (order_items (db scenario_reserved))) = 1
   \<and> inventory (db scenario_reserved) ! 0 =
       (inventory (db scenario_world) ! 0)\<lparr>inv_quantity := inv_quantity (inventory (db scenario_world) ! 0) - 2\<rparr>"
proof -
  have dist: "distinct (map fst [(10 :: int, 2 :: int, 950 :: int)])" by simp
  have key: "distinct (map row_key (order_items (db scenario_world)))"
    by (simp add: scenario_world_def)
  have only: "oi_product_id ` set (filter (\<lambda>r. oi_order_id r = 1) (order_items (db scenario_world)))
        \<subseteq> fst ` set [(10 :: int, 2 :: int, 950 :: int)]"
    by (simp add: scenario_world_def)
  note inst = reservation_effect[OF scenario_loads_order scenario_reserves dist key only]
  from inst have a: "length (filter (\<lambda>r. oi_order_id r = 1) (order_items (db scenario_reserved))) = 1"
    by simp
  have k: "0 < length (inventory (db scenario_world))"
    "inv_product_id (inventory (db scenario_world) ! 0) = fst (10 :: int, 2 :: int, 950 :: int)"
    "inv_warehouse_id (inventory (db scenario_world) ! 0) = 5"
    by (simp_all add: scenario_world_def)
  from inst have "\<forall>k<length (inventory (db scenario_world)). \<forall>x\<in>set [(10 :: int, 2 :: int, 950 :: int)].
            inv_product_id (inventory (db scenario_world) ! k) = fst x \<and>
            inv_warehouse_id (inventory (db scenario_world) ! k) = 5 \<longrightarrow>
            inventory (db scenario_reserved) ! k =
              (inventory (db scenario_world) ! k)\<lparr>inv_quantity := inv_quantity (inventory (db scenario_world) ! k) - fst (snd x)\<rparr>"
    by blast
  with k have b: "inventory (db scenario_reserved) ! 0 =
       (inventory (db scenario_world) ! 0)\<lparr>inv_quantity := inv_quantity (inventory (db scenario_world) ! 0) - 2\<rparr>"
    by fastforce
  from scenario_loads_order scenario_reserves dist key only a b show ?thesis by blast
qed

subsection \<open>C2: reserved, then confirmed\<close>

text \<open>
  C2. When an order event has been processed by \<^verbatim>\<open>process_order\<close> and a confirmation event for
  the same order id is then processed by \<^verbatim>\<open>confirm_order\<close>, both ending normally, the order
  has a row, every row of the order has status \<^verbatim>\<open>confirmed\<close>, and the document uploaded for
  the order carries as its grand total the builtin \<^verbatim>\<open>sum\<close> of
  \<^verbatim>\<open>float(quantity) * float(price)\<close> over the rows \<^verbatim>\<open>order_items\<close> holds for the order, in
  the order of the table. The floating-point operations are those of the environment,
  whatever they are.
\<close>

theorem reserved_then_confirmed:
  assumes event: "loads_order_event env1 body1 = Inr (order_event_of oid wid its)"
      and reserved: "process_order env1 body1 w = (Inr (), w1)"
      and parsed: "loads_confirmation_event env2 (py_replace [CHR 0x27] [CHR 0x22] body2) =
                     Inr \<lparr>ce_order_id = Some oid\<rparr>"
      and confirmed: "confirm_order env2 body2 w1 = (Inr (), w2)"
  shows "oid \<in> o_order_id ` set (orders (db w2))
       \<and> (\<forall>r\<in>set (orders (db w2)). o_order_id r = oid \<longrightarrow> o_status r = ''confirmed'')
       \<and> (\<exists>doc. blobs w2 (blob_name oid) = Some (pdf_output env2 doc) \<and>
             doc_order_id doc = oid \<and>
             doc_grand_total doc =
               fsum env2 (map (\<lambda>i. fmul env2 (float_of_quantity env2 (oi_quantity i))
                                           (float_of_price env2 (oi_price i)))
                            (filter (\<lambda>r. oi_order_id r = oid) (order_items (db w2)))))"
proof -
  from process_order_success[OF event reserved]
  have "orders (db w1) = reserved_orders oid wid (orders (db w))"
    by (simp add: reserved_ledger_def)
  then have present: "oid \<in> o_order_id ` set (orders (db w1))"
    by (simp add: ids_reserved_orders)
  from confirm_order_success[OF parsed present confirmed] obtain ord where
    w2: "w2 = w1\<lparr>db := (confirmed_ledger oid (now env2) (db w1))
                         \<lparr>orders := invoiced_orders (blob_url env2 (blob_name oid)) oid
                                      (orders (confirmed_ledger oid (now env2) (db w1)))\<rparr>,
                  blobs := (blobs w1)(blob_name oid \<mapsto> pdf_output env2 (invoice_of env2 oid ord (db w1)))\<rparr>"
    by blast
  have "map o_order_id (orders (db w2)) = map o_order_id (orders (db w1))"
    by (simp add: w2 ids_confirmed)
  then have "set (map o_order_id (orders (db w2))) = set (map o_order_id (orders (db w1)))"
    by (rule arg_cong)
  then have ids: "o_order_id ` set (orders (db w2)) = o_order_id ` set (orders (db w1))"
    by simp
  have st: "\<forall>r\<in>set (orders (db w2)). o_order_id r = oid \<longrightarrow> o_status r = ''confirmed''"
    by (auto simp: w2 intro: status_confirmed)
  have items: "order_items (db w2) = order_items (db w1)"
    by (simp add: w2 confirmed_ledger_def)
  let ?doc = "invoice_of env2 oid ord (db w1)"
  have "blobs w2 (blob_name oid) = Some (pdf_output env2 ?doc)"
    by (simp add: w2)
  moreover have "doc_order_id ?doc = oid"
    by (simp add: invoice_of_def invoice_document_def)
  moreover have "doc_grand_total ?doc =
               fsum env2 (map (\<lambda>i. fmul env2 (float_of_quantity env2 (oi_quantity i))
                                           (float_of_price env2 (oi_price i)))
                            (filter (\<lambda>r. oi_order_id r = oid) (order_items (db w2))))"
    by (simp add: invoice_of_def invoice_document_def total_amount_def items)
       (simp add: line_total_def cong: map_cong)
  ultimately show ?thesis using present ids st by blast
qed

theorem reserved_then_confirmed_witness:
  \<open>loads_order_event scenario_env scenario_order_body = Inr (order_event_of 1 5 [(10, 2, 950)])
   \<and> process_order scenario_env scenario_order_body scenario_world = (Inr (), scenario_reserved)
   \<and> loads_confirmation_event scenario_env (py_replace [CHR 0x27] [CHR 0x22] ''{"order_id": 1}'') =
       Inr \<lparr>ce_order_id = Some 1\<rparr>
   \<and> confirm_order scenario_env ''{"order_id": 1}'' scenario_reserved = (Inr (), scenario_confirmed)
   \<and> map o_status (orders (db scenario_confirmed)) = [''confirmed'']
   \<and> (\<exists>doc. blobs scenario_confirmed (blob_name 1) = Some (pdf_output scenario_env doc) \<and>
         doc_grand_total doc = 2 * 950)\<close>
proof -
  have "fsum scenario_env (map (\<lambda>i. fmul scenario_env (float_of_quantity scenario_env (oi_quantity i))
                                           (float_of_price scenario_env (oi_price i)))
                            (filter (\<lambda>r. oi_order_id r = 1) (order_items (db scenario_confirmed)))) =
        2 * 950"
    by (simp add: scenario_confirmed_def scenario_env_def)
  with reserved_then_confirmed[OF scenario_loads_order scenario_reserves
      scenario_loads_confirmation scenario_confirms]
  have "\<exists>doc. blobs scenario_confirmed (blob_name 1) = Some (pdf_output scenario_env doc) \<and>
         doc_grand_total doc = 2 * 950"
    by (elim conjE exE) (intro exI conjI, assumption, simp)
  moreover have "map o_status (orders (db scenario_confirmed)) = [''confirmed'']"
    by (simp add: scenario_confirmed_def)
  ultimately show ?thesis
    using scenario_loads_order scenario_reserves scenario_loads_confirmation scenario_confirms
    by blast
qed

subsection \<open>C3: each transaction is all or nothing\<close>

text \<open>
  C3, as stated, fails for \<^verbatim>\<open>confirm_order\<close>: its statements are not in a single transaction
  but in two \<^verbatim>\<open>with engine.begin()\<close> blocks (lines 168-193 and 241-245), and the first has
  committed when the second runs. In the scenario the store fails at the \<^verbatim>\<open>UPDATE\<close> of the
  invoice URL, inside the second block: \<^verbatim>\<open>confirm_order\<close> raises, and the status
  \<^verbatim>\<open>confirmed\<close> and the invoice row of the first block stay in the ledger, where the order
  was \<^verbatim>\<open>reserved\<close> and had no invoice before; the invoice URL is not set.
\<close>

theorem confirmation_partly_persisted_counterexample:
  \<open>confirm_order (scenario_outage 9) ''{"order_id": 1}'' scenario_reserved =
     (Inl OperationalError,
      snd (confirm_order (scenario_outage 9) ''{"order_id": 1}'' scenario_reserved))
   \<and> map o_status (orders (db scenario_reserved)) = [''reserved'']
   \<and> invoice (db scenario_reserved) = []
   \<and> map o_status
        (orders (db (snd (confirm_order (scenario_outage 9) ''{"order_id": 1}'' scenario_reserved)))) =
       [''confirmed'']
   \<and> invoice (db (snd (confirm_order (scenario_outage 9) ''{"order_id": 1}'' scenario_reserved))) =
       [\<lparr>invc_order_id = 1, invc_created_at = 0\<rparr>]
   \<and> map o_invoice_blob
        (orders (db (snd (confirm_order (scenario_outage 9) ''{"order_id": 1}'' scenario_reserved)))) =
       [None]\<close>
  by (simp add: confirm_order_parsed[OF scenario_outage_loads_confirmation] scenario_outage_fault
      scenario_outage_now scenario_reserved_def confirmed_ledger_def)

text \<open>
  C3, amended. Each \<^verbatim>\<open>with engine.begin()\<close> block of an invocation is atomic: all of its
  statements commit or none does, and an exception raised inside a block persists nothing of
  that block and is raised to the caller.

  \<^verbatim>\<open>process_order\<close> has one block. Whatever the message and whatever fails, either the world
  is left as it was and an exception is raised, or the event was well formed and the ledger
  holds the effect of every statement of the block. A failure of the connect, of any
  statement or of the commit (the calls \<open>0\<close> to \<open>3 + 2N\<close> of the store, for \<open>N\<close> items) raises
  \<^verbatim>\<open>OperationalError\<close> and leaves the world as it was; so does, with its own exception, an
  event that is not well formed (a \<^verbatim>\<open>KeyError\<close> of an item in one of the loops included).

  \<^verbatim>\<open>confirm_order\<close> has two blocks (status and invoice row; invoice URL), with the rendering
  and the upload between them. The ledger it leaves is the one it found, or that after the
  whole first block, or that after both blocks, the last exactly when it returns normally.
  For an order that exists: a failure inside the first block (calls \<open>0\<close> to \<open>5\<close>) raises and
  leaves the world as it was; a failure after the first block has committed (rendering,
  upload, or anything of the second block: calls \<open>6\<close> to \<open>10\<close>) raises and leaves exactly the
  ledger of the first block, with nothing of the second.
\<close>

theorem transaction_blocks_atomic:
  "(process_order env body w = (r, w') \<longrightarrow>
      (w' = w \<and> r \<noteq> Inr ()) \<or>
      (\<exists>oid wid its. loads_order_event env body = Inr (order_event_of oid wid its) \<and>
         db w' = reserved_ledger oid wid its (db w) \<and> blobs w' = blobs w))
   \<and> (loads_order_event env body = Inr (order_event_of oid wid its) \<and>
        k < 4 + 2 * length its \<and> fault env k \<longrightarrow>
      process_order env body w = (Inl OperationalError, w))
   \<and> ((\<nexists>oid wid its. loads_order_event env body = Inr (order_event_of oid wid its)) \<longrightarrow>
      (\<exists>e. process_order env body w = (Inl e, w)))
   \<and> (confirm_order env body w = (r, w') \<longrightarrow>
      w' = w \<or>
      (\<exists>oid. loads_confirmation_event env (py_replace [CHR 0x27] [CHR 0x22] body) =
               Inr \<lparr>ce_order_id = Some oid\<rparr> \<and>
         (db w' = confirmed_ledger oid (now env) (db w) \<and> r \<noteq> Inr () \<or>
          db w' = (confirmed_ledger oid (now env) (db w))
                    \<lparr>orders := invoiced_orders (blob_url env (blob_name oid)) oid
                                 (orders (confirmed_ledger oid (now env) (db w)))\<rparr> \<and> r = Inr ())))
   \<and> (loads_confirmation_event env (py_replace [CHR 0x27] [CHR 0x22] body) =
          Inr \<lparr>ce_order_id = Some coid\<rparr> \<and>
        coid \<in> o_order_id ` set (orders (db w)) \<and> j < 6 \<and> fault env j \<longrightarrow>
      confirm_order env body w = (Inl OperationalError, w))
   \<and> (loads_confirmation_event env (py_replace [CHR 0x27] [CHR 0x22] body) =
          Inr \<lparr>ce_order_id = Some coid\<rparr> \<and>
        coid \<in> o_order_id ` set (orders (db w)) \<and>
        \<not> list_ex (fault env) [0..<6] \<and> 6 \<le> l \<and> l \<le> 10 \<and> fault env l \<longrightarrow>
      (\<exists>e w1. confirm_order env body w = (Inl e, w1) \<and>
         db w1 = confirmed_ledger coid (now env) (db w)))"
proof (intro conjI impI)
  show "(w' = w \<and> r \<noteq> Inr ()) \<or>
      (\<exists>oid wid its. loads_order_event env body = Inr (order_event_of oid wid its) \<and>
         db w' = reserved_ledger oid wid its (db w) \<and> blobs w' = blobs w)"
    if "process_order env body w = (r, w')"
    using that by (rule process_order_all_or_nothing)
  show "process_order env body w = (Inl OperationalError, w)"
    if "loads_order_event env body = Inr (order_event_of oid wid its) \<and>
        k < 4 + 2 * length its \<and> fault env k"
    using that by (blast intro: process_order_fault_in_block)
  show "\<exists>e. process_order env body w = (Inl e, w)"
    if "\<nexists>oid wid its. loads_order_event env body = Inr (order_event_of oid wid its)"
    using that by (rule process_order_malformed)
  show "w' = w \<or>
      (\<exists>oid. loads_confirmation_event env (py_replace [CHR 0x27] [CHR 0x22] body) =
               Inr \<lparr>ce_order_id = Some oid\<rparr> \<and>
         (db w' = confirmed_ledger oid (now env) (db w) \<and> r \<noteq> Inr () \<or>
          db w' = (confirmed_ledger oid (now env) (db w))
                    \<lparr>orders := invoiced_orders (blob_url env (blob_name oid)) oid
                                 (orders (confirmed_ledger oid (now env) (db w)))\<rparr> \<and> r = Inr ()))"
    if "confirm_order env body w = (r, w')"
    using that by (rule confirm_order_all_or_nothing)
  show "confirm_order env body w = (Inl OperationalError, w)"
    if "loads_confirmation_event env (py_replace [CHR 0x27] [CHR 0x22] body) =
          Inr \<lparr>ce_order_id = Some coid\<rparr> \<and>
        coid \<in> o_order_id ` set (orders (db w)) \<and> j < 6 \<and> fault env j"
    using that by (blast intro: confirm_order_fault_in_first_block)
  show "\<exists>e w1. confirm_order env body w = (Inl e, w1) \<and>
         db w1 = confirmed_ledger coid (now env) (db w)"
    if "loads_confirmation_event env (py_replace [CHR 0x27] [CHR 0x22] body) =
          Inr \<lparr>ce_order_id = Some coid\<rparr> \<and>
        coid \<in> o_order_id ` set (orders (db w)) \<and>
        \<not> list_ex (fault env) [0..<6] \<and> 6 \<le> l \<and> l \<le> 10 \<and> fault env l"
    using that by (intro confirm_order_fault_after_first_block[where k = l]) blast+
qed

text \<open>
  The reservation of the scenario commits the whole block. With a store that fails at its
  fifth call (the upsert of the item, after the order row was inserted and the inventory
  decremented in the block) the exception reaches the caller and the world is the one before
  the message; so it is for the event whose second item has no \<^verbatim>\<open>price\<close>, where the
  \<^verbatim>\<open>KeyError\<close> comes after the order row, two decrements and one upsert. A confirmation whose
  upload fails leaves the ledger of the committed first block. One whose fourth call fails
  (the \<^verbatim>\<open>SELECT\<close> of the items, after the status was updated in the block) leaves the world
  alone; one whose tenth call fails (the \<^verbatim>\<open>UPDATE\<close> of the invoice URL, in the second block)
  leaves the ledger of the first block.
\<close>

theorem transaction_blocks_atomic_witness:
  \<open>process_order scenario_env scenario_order_body scenario_world = (Inr (), scenario_reserved)
   \<and> db scenario_reserved = reserved_ledger 1 5 [(10, 2, 950)] (db scenario_world)
   \<and> blobs scenario_reserved = blobs scenario_world
   \<and> loads_order_event (scenario_outage 4) scenario_order_body =
       Inr (order_event_of 1 5 [(10, 2, 950)])
   \<and> 4 < 4 + 2 * length [(10 :: int, 2 :: int, 950 :: int)]
   \<and> fault (scenario_outage 4) 4
   \<and> process_order (scenario_outage 4) scenario_order_body scenario_world =
       (Inl OperationalError, scenario_world)
   \<and> (\<nexists>oid wid its. loads_order_event scenario_incomplete_env scenario_order_body =
         Inr (order_event_of oid wid its))
   \<and> process_order scenario_incomplete_env scenario_order_body scenario_world =
       (Inl (KeyError ''price''), scenario_world)
   \<and> confirm_order (scenario_outage 7) ''{"order_id": 1}'' scenario_reserved =
       (Inl StorageError, snd (confirm_order (scenario_outage 7) ''{"order_id": 1}'' scenario_reserved))
   \<and> db (snd (confirm_order (scenario_outage 7) ''{"order_id": 1}'' scenario_reserved)) =
       confirmed_ledger 1 (now (scenario_outage 7)) (db scenario_reserved)
   \<and> loads_confirmation_event (scenario_outage 3)
        (py_replace [CHR 0x27] [CHR 0x22] ''{"order_id": 1}'') = Inr \<lparr>ce_order_id = Some 1\<rparr>
   \<and> 1 \<in> o_order_id ` set (orders (db scenario_reserved))
   \<and> (3 :: nat) < 6
   \<and> fault (scenario_outage 3) 3
   \<and> confirm_order (scenario_outage 3) ''{"order_id": 1}'' scenario_reserved =
       (Inl OperationalError, scenario_reserved)
   \<and> loads_confirmation_event (scenario_outage 9)
        (py_replace [CHR 0x27] [CHR 0x22] ''{"order_id": 1}'') = Inr \<lparr>ce_order_id = Some 1\<rparr>
   \<and> \<not> list_ex (fault (scenario_outage 9)) [0..<6]
   \<and> (6 :: nat) \<le> 9 \<and> (9 :: nat) \<le> 10
   \<and> fault (scenario_outage 9) 9
   \<and> fst (confirm_order (scenario_outage 9) ''{"order_id": 1}'' scenario_reserved) =
       Inl OperationalError
   \<and> db (snd (confirm_order (scenario_outage 9) ''{"order_id": 1}'' scenario_reserved)) =
       confirmed_ledger 1 (now (scenario_outage 9)) (db scenario_reserved)\<close>
proof -
  note f = scenario_outage_fault
  note p = scenario_outage_loads_confirmation
  \<comment> \<open>the block of a reservation, committed\<close>
  from transaction_blocks_atomic[where env = scenario_env and body = scenario_order_body
      and w = scenario_world and r = "Inr ()" and w' = scenario_reserved] scenario_reserves
  have "\<exists>oid wid its.
      loads_order_event scenario_env scenario_order_body = Inr (order_event_of oid wid its) \<and>
      db scenario_reserved = reserved_ledger oid wid its (db scenario_world) \<and>
      blobs scenario_reserved = blobs scenario_world"
    by blast
  with scenario_event_unique
  have a: "db scenario_reserved = reserved_ledger 1 5 [(10, 2, 950)] (db scenario_world)"
    "blobs scenario_reserved = blobs scenario_world"
    by blast+
  \<comment> \<open>a failure of the store inside the block of a reservation\<close>
  have b1: "loads_order_event (scenario_outage 4) scenario_order_body =
      Inr (order_event_of 1 5 [(10, 2, 950)])"
    by (simp add: scenario_outage_def scenario_env_def)
  have b2: "4 < 4 + 2 * length [(10 :: int, 2 :: int, 950 :: int)]" by simp
  have b3: "fault (scenario_outage 4) 4" by (simp add: f)
  from transaction_blocks_atomic[where env = "scenario_outage 4" and body = scenario_order_body
      and w = scenario_world and oid = 1 and wid = 5 and its = "[(10, 2, 950)]" and k = 4]
    b1 b2 b3
  have b4: "process_order (scenario_outage 4) scenario_order_body scenario_world =
       (Inl OperationalError, scenario_world)"
    by blast
  \<comment> \<open>a \<^verbatim>\<open>KeyError\<close> inside the block of a reservation\<close>
  note c1 = scenario_incomplete_malformed
  from transaction_blocks_atomic[where env = scenario_incomplete_env
      and body = scenario_order_body and w = scenario_world] c1
  have "\<exists>e. process_order scenario_incomplete_env scenario_order_body scenario_world =
      (Inl e, scenario_world)"
    by blast
  with scenario_incomplete_raises
  have c2: "process_order scenario_incomplete_env scenario_order_body scenario_world =
       (Inl (KeyError ''price''), scenario_world)"
    by auto
  \<comment> \<open>a confirmation whose upload fails\<close>
  let ?w = \<open>snd (confirm_order (scenario_outage 7) ''{"order_id": 1}'' scenario_reserved)\<close>
  have d1: \<open>confirm_order (scenario_outage 7) ''{"order_id": 1}'' scenario_reserved =
      (Inl StorageError, ?w)\<close>
    by (simp add: confirm_order_parsed[OF p] f scenario_reserved_def)
  from transaction_blocks_atomic[where env = "scenario_outage 7"
      and body = \<open>''{"order_id": 1}''\<close> and w = scenario_reserved
      and r = "Inl StorageError" and w' = ?w] d1
  have \<open>?w = scenario_reserved \<or>
      (\<exists>oid. loads_confirmation_event (scenario_outage 7)
               (py_replace [CHR 0x27] [CHR 0x22] ''{"order_id": 1}'') =
               Inr \<lparr>ce_order_id = Some oid\<rparr> \<and>
         (db ?w = confirmed_ledger oid (now (scenario_outage 7)) (db scenario_reserved) \<and>
            Inl StorageError \<noteq> (Inr () :: error + unit) \<or>
          db ?w = (confirmed_ledger oid (now (scenario_outage 7)) (db scenario_reserved))
                    \<lparr>orders := invoiced_orders (blob_url (scenario_outage 7) (blob_name oid)) oid
                                 (orders (confirmed_ledger oid (now (scenario_outage 7)) (db scenario_reserved)))\<rparr> \<and>
            Inl StorageError = (Inr () :: error + unit)))\<close>
    by blast
  moreover have "?w \<noteq> scenario_reserved"
    by (simp add: confirm_order_parsed[OF p] f scenario_reserved_def confirmed_ledger_def)
  moreover have \<open>loads_confirmation_event (scenario_outage 7)
      (py_replace [CHR 0x27] [CHR 0x22] ''{"order_id": 1}'') = Inr \<lparr>ce_order_id = Some oid\<rparr> \<Longrightarrow>
      oid = 1\<close> for oid
    by (simp only: p) simp
  ultimately have d2: "db ?w = confirmed_ledger 1 (now (scenario_outage 7)) (db scenario_reserved)"
    by blast
  \<comment> \<open>a failure of the store inside the first block of a confirmation\<close>
  have e1: "1 \<in> o_order_id ` set (orders (db scenario_reserved))"
    by (simp add: scenario_reserved_def)
  have e2: "(3 :: nat) < 6" by simp
  have e3: "fault (scenario_outage 3) 3" by (simp add: f)
  from transaction_blocks_atomic[where env = "scenario_outage 3"
      and body = \<open>''{"order_id": 1}''\<close> and w = scenario_reserved and coid = 1 and j = 3]
    p[of 3] e1 e2 e3
  have e4: \<open>confirm_order (scenario_outage 3) ''{"order_id": 1}'' scenario_reserved =
       (Inl OperationalError, scenario_reserved)\<close>
    by blast
  \<comment> \<open>a failure of the store inside the second block of a confirmation\<close>
  have g1: "\<not> list_ex (fault (scenario_outage 9)) [0..<6]"
    by (simp add: f fault_before_six)
  have g2: "(6 :: nat) \<le> 9" "(9 :: nat) \<le> 10" by simp_all
  have g3: "fault (scenario_outage 9) 9" by (simp add: f)
  from transaction_blocks_atomic[where env = "scenario_outage 9"
      and body = \<open>''{"order_id": 1}''\<close> and w = scenario_reserved and coid = 1 and l = 9]
    p[of 9] e1 g1 g2 g3
  have \<open>\<exists>e w1. confirm_order (scenario_outage 9) ''{"order_id": 1}'' scenario_reserved = (Inl e, w1) \<and>
      db w1 = confirmed_ledger 1 (now (scenario_outage 9)) (db scenario_reserved)\<close>
    by blast
  then have g4: \<open>db (snd (confirm_order (scenario_outage 9) ''{"order_id": 1}'' scenario_reserved)) =
      confirmed_ledger 1 (now (scenario_outage 9)) (db scenario_reserved)\<close>
    by auto
  have g5: \<open>fst (confirm_order (scenario_outage 9) ''{"order_id": 1}'' scenario_reserved) =
      Inl OperationalError\<close>
    by (simp add: confirm_order_parsed[OF p] f scenario_reserved_def)
  from scenario_reserves a b1 b2 b3 b4 c1 c2 d1 d2 p[of 3] e1 e2 e3 e4 p[of 9] g1 g2 g3 g5 g4
  show ?thesis by (intro conjI)
qed

subsection \<open>C4: the status of an order\<close>

text \<open>
  C4, as stated, fails: \<^verbatim>\<open>process_order\<close> sets the status of an existing order to
  \<^verbatim>\<open>reserved\<close> whatever it was (lines 79-84). In the scenario the order is confirmed; the
  order event, delivered once more, leaves it \<^verbatim>\<open>reserved\<close>.
\<close>

theorem status_regresses_counterexample:
  "confirmed_in 1 scenario_confirmed
   \<and> map o_status (orders (db (invocations [Orders_queue scenario_env scenario_order_body]
        scenario_confirmed))) = [''reserved'']"
proof -
  have "map o_status (orders (db (invocations [Orders_queue scenario_env scenario_order_body]
        scenario_confirmed))) = [''reserved'']"
    by (simp add: invocations_def process_order_well_formed[OF scenario_loads_order]
        scenario_no_fault)
       (simp add: reserved_ledger_def reserved_orders_def scenario_confirmed_def)
  with scenario_confirmed_in show ?thesis by blast
qed

text \<open>
  C4, amended, in its three parts. A confirmed order stays confirmed under every sequence of
  handler invocations that holds no reservation event for its order id: \<^verbatim>\<open>confirm_order\<close> only
  ever writes \<^verbatim>\<open>confirmed\<close>, and \<^verbatim>\<open>process_order\<close> writes the status of the order of its own
  event only. A confirmation of an order that exists, when it returns normally, leaves the
  order \<^verbatim>\<open>confirmed\<close>. A reservation event for an order id, when \<^verbatim>\<open>process_order\<close> returns
  normally, leaves that order \<^verbatim>\<open>reserved\<close>, whatever its status was.
\<close>

theorem order_status_transitions:
  "(\<not> list_ex (reservation_for oid) ms \<and> confirmed_in oid w \<longrightarrow>
      confirmed_in oid (invocations ms w))
   \<and> (loads_confirmation_event env (py_replace [CHR 0x27] [CHR 0x22] body) =
          Inr \<lparr>ce_order_id = Some oid\<rparr> \<and>
        oid \<in> o_order_id ` set (orders (db w)) \<and>
        confirm_order env body w = (Inr (), w') \<longrightarrow>
      confirmed_in oid w')
   \<and> (reservation_for oid (Orders_queue env body) \<and>
        process_order env body w = (Inr (), w') \<longrightarrow>
      reserved_in oid w')"
proof (intro conjI impI)
  show "confirmed_in oid (invocations ms w)"
    if "\<not> list_ex (reservation_for oid) ms \<and> confirmed_in oid w"
    using that by (blast intro: invocations_keep_confirmed)
  show "confirmed_in oid w'"
    if "loads_confirmation_event env (py_replace [CHR 0x27] [CHR 0x22] body) =
          Inr \<lparr>ce_order_id = Some oid\<rparr> \<and>
        oid \<in> o_order_id ` set (orders (db w)) \<and>
        confirm_order env body w = (Inr (), w')"
    using that by (blast intro: confirmed_in_after_confirmation)
  show "reserved_in oid w'"
    if "reservation_for oid (Orders_queue env body) \<and>
        process_order env body w = (Inr (), w')"
    using that by (blast intro: reserved_in_after_reservation)
qed

text \<open>
  The confirmed order of the scenario, under a second confirmation of it and a reservation
  of another order; the confirmation of the reserved order of the scenario; and the order
  event of the scenario, delivered once more when its order is confirmed.
\<close>

theorem order_status_transitions_witness:
  \<open>\<not> list_ex (reservation_for 1)
       [Confirmation_queue scenario_env ''{"order_id": 1}'',
        Orders_queue scenario_env scenario_other_body]
   \<and> confirmed_in 1 scenario_confirmed
   \<and> confirmed_in 1
        (invocations [Confirmation_queue scenario_env ''{"order_id": 1}'',
                      Orders_queue scenario_env scenario_other_body] scenario_confirmed)
   \<and> loads_confirmation_event scenario_env
        (py_replace [CHR 0x27] [CHR 0x22] ''{"order_id": 1}'') = Inr \<lparr>ce_order_id = Some 1\<rparr>
   \<and> 1 \<in> o_order_id ` set (orders (db scenario_reserved))
   \<and> confirm_order scenario_env ''{"order_id": 1}'' scenario_reserved = (Inr (), scenario_confirmed)
   \<and> reservation_for 1 (Orders_queue scenario_env scenario_order_body)
   \<and> process_order scenario_env scenario_order_body scenario_confirmed =
       (Inr (), snd (process_order scenario_env scenario_order_body scenario_confirmed))
   \<and> reserved_in 1 (snd (process_order scenario_env scenario_order_body scenario_confirmed))\<close>
proof -
  have "loads_order_event scenario_env scenario_other_body = Inr (order_event_of 2 5 [(11, 1, 100)])"
    by (simp add: scenario_env_def scenario_other_body_def scenario_order_body_def
        scenario_duplicate_body_def)
  then have n: \<open>\<not> list_ex (reservation_for 1)
       [Confirmation_queue scenario_env ''{"order_id": 1}'',
        Orders_queue scenario_env scenario_other_body]\<close>
    by (simp add: reservation_for_def order_event_of_def)
  from order_status_transitions[where oid = 1 and w = scenario_confirmed
      and ms = \<open>[Confirmation_queue scenario_env ''{"order_id": 1}'',
                Orders_queue scenario_env scenario_other_body]\<close>]
    n scenario_confirmed_in
  have a: \<open>confirmed_in 1
        (invocations [Confirmation_queue scenario_env ''{"order_id": 1}'',
                      Orders_queue scenario_env scenario_other_body] scenario_confirmed)\<close>
    by blast
  have b1: "1 \<in> o_order_id ` set (orders (db scenario_reserved))"
    by (simp add: scenario_reserved_def)
  from order_status_transitions[where oid = 1 and env = scenario_env
      and body = \<open>''{"order_id": 1}''\<close> and w = scenario_reserved and w' = scenario_confirmed]
    scenario_loads_confirmation b1 scenario_confirms
  have b2: "confirmed_in 1 scenario_confirmed"
    by blast
  have c1: "reservation_for 1 (Orders_queue scenario_env scenario_order_body)"
    by (simp add: reservation_for_def scenario_loads_order order_event_of_def)
  have c2: "process_order scenario_env scenario_order_body scenario_confirmed =
       (Inr (), snd (process_order scenario_env scenario_order_body scenario_confirmed))"
    by (simp add: process_order_well_formed[OF scenario_loads_order] scenario_no_fault)
  from order_status_transitions[where oid = 1 and env = scenario_env
      and body = scenario_order_body and w = scenario_confirmed
      and w' = "snd (process_order scenario_env scenario_order_body scenario_confirmed)"]
    c1 c2
  have c3: "reserved_in 1 (snd (process_order scenario_env scenario_order_body scenario_confirmed))"
    by blast
  from n b2 a scenario_loads_confirmation b1 scenario_confirms c1 c2 c3
  show ?thesis by (intro conjI)
qed

subsection \<open>C5: confirming an order that does not exist\<close>

text \<open>
  C5. When the event's order id has no row in \<^verbatim>\<open>orders\<close>, \<^verbatim>\<open>confirm_order\<close> leaves the whole
  world as it was (no table is written, no blob is uploaded) and returns normally. Its only
  calls are the connect, the \<^verbatim>\<open>SELECT\<close> and the commit of the empty block (calls 0 to 2): it
  raises only if the store fails one of them, and it never reaches the PDF writer or the blob
  service, whose failures (calls 6 and 7 of a full confirmation) have no influence.
\<close>

theorem confirm_missing_order_skips:
  assumes parsed: "loads_confirmation_event env (py_replace [CHR 0x27] [CHR 0x22] body) =
                     Inr \<lparr>ce_order_id = Some oid\<rparr>"
      and absent: "oid \<notin> o_order_id ` set (orders (db w))"
  shows "confirm_order env body w =
           (if fault env 0 \<or> fault env 1 \<or> fault env 2 then Inl OperationalError else Inr (), w)"
proof -
  from absent have "find (\<lambda>r. o_order_id r = oid) (orders (db w)) = None"
    by (auto simp: find_None_iff)
  then show ?thesis by (simp add: confirm_order_parsed[OF parsed])
qed

theorem confirm_missing_order_skips_witness:
  \<open>loads_confirmation_event scenario_env (py_replace [CHR 0x27] [CHR 0x22] ''{"order_id": 999}'') =
     Inr \<lparr>ce_order_id = Some 999\<rparr>
   \<and> 999 \<notin> o_order_id ` set (orders (db scenario_world))
   \<and> confirm_order scenario_env ''{"order_id": 999}'' scenario_world = (Inr (), scenario_world)\<close>
proof -
  have p: \<open>loads_confirmation_event scenario_env (py_replace [CHR 0x27] [CHR 0x22] ''{"order_id": 999}'') =
     Inr \<lparr>ce_order_id = Some 999\<rparr>\<close>
    by (simp add: scenario_env_def py_replace_single)
  have a: "999 \<notin> o_order_id ` set (orders (db scenario_world))"
    by (simp add: scenario_world_def)
  have \<open>confirm_order scenario_env ''{"order_id": 999}'' scenario_world = (Inr (), scenario_world)\<close>
    using confirm_missing_order_skips[OF p a] by (simp add: scenario_env_def)
  with p a show ?thesis by blast
qed

subsection \<open>C6: the inventory decrement\<close>

text \<open>
  C6. The inventory decrement of the Reservation Handler subtracts unconditionally. For one
  item \<open>(pid, qty, price)\<close> the statement, when the store answers, ends without an error
  whatever the table holds and rewrites the quantity of every row of
  \<open>(pid, wid)\<close> to \<open>quantity - qty\<close>, with no floor; when no row matches, the ledger is left
  as it was. For the handler as a whole: whether \<^verbatim>\<open>process_order\<close> raises does not depend on
  the inventory table, and after a successful run every row of the event's warehouse holds
  its former quantity minus the quantities requested of its product.
\<close>

theorem decrement_inventory_unconditional:
  assumes wf: "loads_order_event env body = Inr (order_event_of oid wid its)"
      and up: "\<not> fault env t"
  shows "decrement_item env wid (item_of (pid, qty, price)) (t, d) =
           Inr ((), Suc t, d\<lparr>inventory :=
             map (\<lambda>r. if inv_product_id r = pid \<and> inv_warehouse_id r = wid
                       then r\<lparr>inv_quantity := inv_quantity r - qty\<rparr> else r) (inventory d)\<rparr>)
       \<and> ((\<forall>r\<in>set (inventory d). \<not> (inv_product_id r = pid \<and> inv_warehouse_id r = wid)) \<longrightarrow>
            decrement_item env wid (item_of (pid, qty, price)) (t, d) = Inr ((), Suc t, d))
       \<and> fst (process_order env body (w\<lparr>db := (db w)\<lparr>inventory := table\<rparr>\<rparr>)) =
            fst (process_order env body w)
       \<and> (process_order env body w = (Inr (), w') \<longrightarrow>
            inventory (db w') =
              map (\<lambda>r. if inv_warehouse_id r = wid
                        then r\<lparr>inv_quantity := inv_quantity r -
                               sum_list (map (\<lambda>x. fst (snd x))
                                 (filter (\<lambda>x. fst x = inv_product_id r) its))\<rparr>
                        else r) (inventory (db w)))
       \<and> (process_order env body w = (Inr (), w') \<longrightarrow>
            (\<forall>r\<in>set (inventory (db w)).
               inv_warehouse_id r = wid \<longrightarrow> inv_product_id r \<notin> fst ` set its) \<longrightarrow>
            inventory (db w') = inventory (db w))"
proof (intro conjI impI)
  show one: "decrement_item env wid (item_of (pid, qty, price)) (t, d) =
           Inr ((), Suc t, d\<lparr>inventory :=
             map (\<lambda>r. if inv_product_id r = pid \<and> inv_warehouse_id r = wid
                       then r\<lparr>inv_quantity := inv_quantity r - qty\<rparr> else r) (inventory d)\<rparr>)"
    using up by (simp add: decrement_item_of)
  show "decrement_item env wid (item_of (pid, qty, price)) (t, d) = Inr ((), Suc t, d)"
    if "\<forall>r\<in>set (inventory d). \<not> (inv_product_id r = pid \<and> inv_warehouse_id r = wid)"
  proof -
    from that have "map (\<lambda>r. if inv_product_id r = pid \<and> inv_warehouse_id r = wid
                       then r\<lparr>inv_quantity := inv_quantity r - qty\<rparr> else r) (inventory d) =
                    inventory d"
      by (intro map_idI) auto
    with one show ?thesis by simp
  qed
  show "fst (process_order env body (w\<lparr>db := (db w)\<lparr>inventory := table\<rparr>\<rparr>)) =
          fst (process_order env body w)"
    by (simp add: process_order_well_formed[OF wf])
  show "inventory (db w') =
              map (\<lambda>r. if inv_warehouse_id r = wid
                        then r\<lparr>inv_quantity := inv_quantity r -
                               sum_list (map (\<lambda>x. fst (snd x))
                                 (filter (\<lambda>x. fst x = inv_product_id r) its))\<rparr>
                        else r) (inventory (db w))"
    if "process_order env body w = (Inr (), w')"
    using process_order_success[OF wf that]
    by (simp add: reserved_ledger_def decremented_def requested_def)
  show "inventory (db w') = inventory (db w)"
    if ok: "process_order env body w = (Inr (), w')"
      and none: "\<forall>r\<in>set (inventory (db w)).
               inv_warehouse_id r = wid \<longrightarrow> inv_product_id r \<notin> fst ` set its"
  proof -
    have "inventory (db w') = map (decremented wid its) (inventory (db w))"
      using process_order_success[OF wf ok] by (simp add: reserved_ledger_def)
    also have "\<dots> = inventory (db w)"
      using none by (intro map_idI decremented_untouched) auto
    finally show ?thesis .
  qed
qed

text \<open>
  The scenario: two units of product 10 are reserved in warehouse 5, where one is in stock;
  the quantity stored is \<open>-1\<close>. An event for a product with no row leaves the table alone.
\<close>

theorem decrement_inventory_unconditional_witness:
  "loads_order_event scenario_env scenario_order_body = Inr (order_event_of 1 5 [(10, 2, 950)])
   \<and> \<not> fault scenario_env 0
   \<and> process_order scenario_env scenario_order_body scenario_world =
       (Inr (), snd (process_order scenario_env scenario_order_body scenario_world))
   \<and> inventory (db (snd (process_order scenario_env scenario_order_body scenario_world))) =
       [\<lparr>inv_product_id = 10, inv_warehouse_id = 5, inv_quantity = - 1\<rparr>,
        \<lparr>inv_product_id = 11, inv_warehouse_id = 5, inv_quantity = 4\<rparr>]
   \<and> decrement_item scenario_env 5 (item_of (12, 2, 950)) (0, db scenario_world) =
       Inr ((), Suc 0, db scenario_world)"
proof -
  have wf: "loads_order_event scenario_env scenario_order_body =
      Inr (order_event_of 1 5 [(10, 2, 950)])"
    by (simp add: scenario_env_def)
  have up: "\<not> fault scenario_env 0"
    by (simp add: scenario_env_def)
  have ok: "process_order scenario_env scenario_order_body scenario_world =
       (Inr (), snd (process_order scenario_env scenario_order_body scenario_world))"
    by (simp add: process_order_well_formed[OF wf]) (simp add: scenario_env_def)
  have none: "\<forall>r\<in>set (inventory (db scenario_world)).
      \<not> (inv_product_id r = 12 \<and> inv_warehouse_id r = 5)"
    by (simp add: scenario_world_def)
  note inst = decrement_inventory_unconditional[OF wf up, where pid = 12 and qty = 2 and price = 950
      and d = "db scenario_world" and w = scenario_world and table = "[]"
      and w' = "snd (process_order scenario_env scenario_order_body scenario_world)"]
  from inst ok have "inventory (db (snd (process_order scenario_env scenario_order_body scenario_world))) =
       [\<lparr>inv_product_id = 10, inv_warehouse_id = 5, inv_quantity = - 1\<rparr>,
        \<lparr>inv_product_id = 11, inv_warehouse_id = 5, inv_quantity = 4\<rparr>]"
    by (simp add: scenario_world_def)
  moreover from inst none
  have "decrement_item scenario_env 5 (item_of (12, 2, 950)) (0, db scenario_world) =
       Inr ((), Suc 0, db scenario_world)"
    by blast
  ultimately show ?thesis using wf up ok by blast
qed

subsection \<open>C7: the same reservation event, twice\<close>

text \<open>
  C7. When the same message is processed twice by \<^verbatim>\<open>process_order\<close>, both runs ending
  normally, the second run leaves the \<^verbatim>\<open>orders\<close> table as the first left it (the order has a
  row, with status \<^verbatim>\<open>reserved\<close>, and exactly one when the order ids were distinct before) and
  the \<^verbatim>\<open>order_items\<close> table as the first left it, and every inventory row of the event's
  warehouse ends at its original quantity minus twice the quantity the event requests of its
  product.
\<close>

theorem reservation_processed_twice:
  assumes first_event: "loads_order_event env1 body = Inr (order_event_of oid wid its)"
      and second_event: "loads_order_event env2 body = Inr (order_event_of oid wid its)"
      and first_run: "process_order env1 body w = (Inr (), w1)"
      and second_run: "process_order env2 body w1 = (Inr (), w2)"
  shows "orders (db w2) = orders (db w1)
       \<and> oid \<in> o_order_id ` set (orders (db w2))
       \<and> (\<forall>r\<in>set (orders (db w2)). o_order_id r = oid \<longrightarrow> o_status r = ''reserved'')
       \<and> (distinct (map o_order_id (orders (db w))) \<longrightarrow>
            length (filter (\<lambda>r. o_order_id r = oid) (orders (db w2))) = 1)
       \<and> order_items (db w2) = order_items (db w1)
       \<and> inventory (db w2) =
           map (\<lambda>r. if inv_warehouse_id r = wid
                     then r\<lparr>inv_quantity := inv_quantity r -
                            2 * sum_list (map (\<lambda>x. fst (snd x))
                                  (filter (\<lambda>x. fst x = inv_product_id r) its))\<rparr>
                     else r) (inventory (db w))"
proof -
  from process_order_success[OF first_event first_run]
  have d1: "db w1 = reserved_ledger oid wid its (db w)" by simp
  from process_order_success[OF second_event second_run]
  have d2: "db w2 = reserved_ledger oid wid its (db w1)" by simp
  have o1: "orders (db w1) = reserved_orders oid wid (orders (db w))"
    by (simp add: d1 reserved_ledger_def)
  have 1: "orders (db w2) = orders (db w1)"
    by (simp add: d2 reserved_ledger_def o1 reserved_orders_twice)
  have 2: "oid \<in> o_order_id ` set (orders (db w2))"
    by (simp add: 1 o1 ids_reserved_orders)
  have 3: "\<forall>r\<in>set (orders (db w2)). o_order_id r = oid \<longrightarrow> o_status r = ''reserved''"
    by (auto simp: 1 o1 intro: reserved_orders_status)
  have 4: "length (filter (\<lambda>r. o_order_id r = oid) (orders (db w2))) = 1"
    if "distinct (map o_order_id (orders (db w)))"
  proof -
    from that have "distinct (map o_order_id (orders (db w2)))"
      by (simp add: 1 o1 distinct_reserved_orders)
    then show ?thesis using 2 by (rule count_key_one)
  qed
  have 5: "order_items (db w2) = order_items (db w1)"
    by (simp add: d2 d1 reserved_ledger_def fold_upsert_twice)
  have 6: "inventory (db w2) =
           map (\<lambda>r. if inv_warehouse_id r = wid
                     then r\<lparr>inv_quantity := inv_quantity r -
                            2 * sum_list (map (\<lambda>x. fst (snd x))
                                  (filter (\<lambda>x. fst x = inv_product_id r) its))\<rparr>
                     else r) (inventory (db w))"
    by (simp add: d2 d1 reserved_ledger_def o_def decremented_twice requested_def)
  from 1 2 3 4 5 6 show ?thesis by blast
qed

theorem reservation_processed_twice_witness:
  "loads_order_event scenario_env scenario_order_body = Inr (order_event_of 1 5 [(10, 2, 950)])
   \<and> process_order scenario_env scenario_order_body scenario_world = (Inr (), scenario_reserved)
   \<and> process_order scenario_env scenario_order_body scenario_reserved =
       (Inr (), snd (process_order scenario_env scenario_order_body scenario_reserved))
   \<and> order_items (db (snd (process_order scenario_env scenario_order_body scenario_reserved))) =
       order_items (db scenario_reserved)
   \<and> map o_status (orders (db (snd (process_order scenario_env scenario_order_body scenario_reserved)))) =
       [''reserved'']
   \<and> distinct (map o_order_id (orders (db scenario_world)))
   \<and> length (filter (\<lambda>r. o_order_id r = 1)
        (orders (db (snd (process_order scenario_env scenario_order_body scenario_reserved))))) = 1
   \<and> map inv_quantity (inventory (db scenario_world)) = [1, 4]
   \<and> map inv_quantity
        (inventory (db (snd (process_order scenario_env scenario_order_body scenario_reserved)))) =
       [- 3, 4]"
proof -
  let ?w2 = "snd (process_order scenario_env scenario_order_body scenario_reserved)"
  have second: "process_order scenario_env scenario_order_body scenario_reserved = (Inr (), ?w2)"
    by (simp add: process_order_well_formed[OF scenario_loads_order] scenario_no_fault)
  note inst = reservation_processed_twice[OF scenario_loads_order scenario_loads_order
      scenario_reserves second]
  from inst have a: "order_items (db ?w2) = order_items (db scenario_reserved)" by blast
  from inst have "orders (db ?w2) = orders (db scenario_reserved)" by blast
  then have b: "map o_status (orders (db ?w2)) = [''reserved'']"
    by (simp add: scenario_reserved_def)
  have pk: "distinct (map o_order_id (orders (db scenario_world)))"
    by (simp add: scenario_world_def)
  with inst have one: "length (filter (\<lambda>r. o_order_id r = 1) (orders (db ?w2))) = 1" by blast
  have c: "map inv_quantity (inventory (db scenario_world)) = [1, 4]"
    by (simp add: scenario_world_def)
  from inst have "inventory (db ?w2) =
           map (\<lambda>r. if inv_warehouse_id r = 5
                     then r\<lparr>inv_quantity := inv_quantity r -
                            2 * sum_list (map (\<lambda>x. fst (snd x))
                                  (filter (\<lambda>x. fst x = inv_product_id r) [(10 :: int, 2 :: int, 950 :: int)]))\<rparr>
                     else r) (inventory (db scenario_world))"
    by blast
  then have d: "map inv_quantity (inventory (db ?w2)) = [- 3, 4]"
    by (simp add: scenario_world_def)
  from scenario_loads_order scenario_reserves second a b pk one c d show ?thesis by blast
qed

subsection \<open>C8: the invoice blob\<close>




subsection \<open>C9: a product named more than once in one event\<close>

text \<open>
  C9. For a successfully processed event and a product \<open>pid\<close> among its items (once or
  several times), on a ledger whose \<^verbatim>\<open>order_items\<close> rows have distinct keys: every inventory
  row of the event's warehouse is decremented by the sum of the quantities of all occurrences
  of its product; \<^verbatim>\<open>order_items\<close> holds exactly one row for the order and \<open>pid\<close>, with the
  quantity and price of the last occurrence; and the document of a later confirmation has one
  line for \<open>pid\<close>, that of the last occurrence, its grand total being the \<^verbatim>\<open>sum\<close> of the
  totals of its lines: the earlier occurrences are not in it.
\<close>

theorem product_repeated_in_event:
  assumes event: "loads_order_event env body = Inr (order_event_of oid wid its)"
      and ok: "process_order env body w = (Inr (), w')"
      and key: "distinct (map row_key (order_items (db w)))"
      and occurs: "pid \<in> fst ` set its"
      and parsed: "loads_confirmation_event env2 (py_replace [CHR 0x27] [CHR 0x22] body2) =
                     Inr \<lparr>ce_order_id = Some oid\<rparr>"
      and later: "confirm_order env2 body2 w' = (Inr (), w'')"
  shows "inventory (db w') =
           map (\<lambda>r. if inv_warehouse_id r = wid
                     then r\<lparr>inv_quantity := inv_quantity r -
                            sum_list (map (\<lambda>x. fst (snd x))
                              (filter (\<lambda>x. fst x = inv_product_id r) its))\<rparr>
                     else r) (inventory (db w))
       \<and> (let x = last (filter (\<lambda>x. fst x = pid) its) in
            filter (\<lambda>r. oi_order_id r = oid \<and> oi_product_id r = pid) (order_items (db w')) =
              [\<lparr>oi_order_id = oid, oi_product_id = pid, oi_quantity = fst (snd x),
                oi_price = snd (snd x)\<rparr>]
            \<and> (\<exists>doc. blobs w'' (blob_name oid) = Some (pdf_output env2 doc) \<and>
                  doc_grand_total doc = fsum env2 (map (\<lambda>l. snd (snd (snd l))) (doc_lines doc)) \<and>
                  filter (\<lambda>l. fst l = pid) (doc_lines doc) =
                    [(pid, fst (snd x), snd (snd x),
                      fmul env2 (float_of_quantity env2 (fst (snd x)))
                                (float_of_price env2 (snd (snd x))))]))"
proof -
  let ?x = "last (filter (\<lambda>x. fst x = pid) its)"
  from process_order_success[OF event ok]
  have d: "db w' = reserved_ledger oid wid its (db w)" by simp
  have 1: "inventory (db w') =
           map (\<lambda>r. if inv_warehouse_id r = wid
                     then r\<lparr>inv_quantity := inv_quantity r -
                            sum_list (map (\<lambda>x. fst (snd x))
                              (filter (\<lambda>x. fst x = inv_product_id r) its))\<rparr>
                     else r) (inventory (db w))"
    by (simp add: d reserved_ledger_def decremented_def requested_def)
  from occurs have "filter (\<lambda>x. fst x = pid) its \<noteq> []"
    by (auto simp: filter_empty_conv)
  then have "?x \<in> set (filter (\<lambda>x. fst x = pid) its)" by (rule last_in_set)
  then have fx: "fst ?x = pid" by simp
  have "filter (\<lambda>r. oi_order_id r = oid \<and> oi_product_id r = pid) (order_items (db w')) =
          [row_of oid ?x]"
    using upserted_row_unique[OF key occurs, of oid] by (simp add: d reserved_ledger_def)
  then have 2: "filter (\<lambda>r. oi_order_id r = oid \<and> oi_product_id r = pid) (order_items (db w')) =
              [\<lparr>oi_order_id = oid, oi_product_id = pid, oi_quantity = fst (snd ?x),
                oi_price = snd (snd ?x)\<rparr>]"
    by (simp add: row_of_def fx)
  have present: "oid \<in> o_order_id ` set (orders (db w'))"
    by (simp add: d reserved_ledger_def ids_reserved_orders)
  from confirm_order_success[OF parsed present later] obtain ord where
    b: "blobs w'' (blob_name oid) = Some (pdf_output env2 (invoice_of env2 oid ord (db w')))"
    by auto
  let ?doc = "invoice_of env2 oid ord (db w')"
  let ?rows = "filter (\<lambda>r. oi_order_id r = oid) (order_items (db w'))"
  have lines: "doc_lines ?doc =
      map (\<lambda>i. (oi_product_id i, oi_quantity i, oi_price i, line_total env2 i)) ?rows"
    by (simp add: invoice_of_def invoice_document_def)
  have total: "doc_grand_total ?doc = fsum env2 (map (\<lambda>l. snd (snd (snd l))) (doc_lines ?doc))"
    by (simp add: lines o_def) (simp add: invoice_of_def invoice_document_def total_amount_def)
  have "filter (\<lambda>l. fst l = pid) (doc_lines ?doc) =
      map (\<lambda>i. (oi_product_id i, oi_quantity i, oi_price i, line_total env2 i))
        (filter (\<lambda>r. oi_order_id r = oid \<and> oi_product_id r = pid) (order_items (db w')))"
    by (simp add: lines filter_map o_def conj_commute)
  then have one: "filter (\<lambda>l. fst l = pid) (doc_lines ?doc) =
                    [(pid, fst (snd ?x), snd (snd ?x),
                      fmul env2 (float_of_quantity env2 (fst (snd ?x)))
                                (float_of_price env2 (snd (snd ?x))))]"
    by (simp add: 2 line_total_def)
  from b total one have "\<exists>doc. blobs w'' (blob_name oid) = Some (pdf_output env2 doc) \<and>
                  doc_grand_total doc = fsum env2 (map (\<lambda>l. snd (snd (snd l))) (doc_lines doc)) \<and>
                  filter (\<lambda>l. fst l = pid) (doc_lines doc) =
                    [(pid, fst (snd ?x), snd (snd ?x),
                      fmul env2 (float_of_quantity env2 (fst (snd ?x)))
                                (float_of_price env2 (snd (snd ?x))))]"
    by blast
  with 1 2 show ?thesis by (simp add: Let_def)
qed

text \<open>
  The event of the scenario that asks 2 at 9.50 and then 3 at 8.00 of product 10: the
  inventory goes from 1 to -4, the row of the order holds 3 at 8.00, and the invoice has the
  single line of total 24.00.
\<close>

theorem product_repeated_in_event_witness:
  \<open>loads_order_event scenario_env scenario_duplicate_body =
     Inr (order_event_of 1 5 [(10, 2, 950), (10, 3, 800)])
   \<and> process_order scenario_env scenario_duplicate_body scenario_world = (Inr (), scenario_duplicated)
   \<and> distinct (map row_key (order_items (db scenario_world)))
   \<and> 10 \<in> fst ` set [(10 :: int, 2 :: int, 950 :: int), (10, 3, 800)]
   \<and> loads_confirmation_event scenario_env (py_replace [CHR 0x27] [CHR 0x22] ''{"order_id": 1}'') =
       Inr \<lparr>ce_order_id = Some 1\<rparr>
   \<and> confirm_order scenario_env ''{"order_id": 1}'' scenario_duplicated =
       (Inr (), snd (confirm_order scenario_env ''{"order_id": 1}'' scenario_duplicated))
   \<and> map inv_quantity (inventory (db scenario_world)) = [1, 4]
   \<and> map inv_quantity (inventory (db scenario_duplicated)) = [- 4, 4]
   \<and> filter (\<lambda>r. oi_order_id r = 1 \<and> oi_product_id r = 10) (order_items (db scenario_duplicated)) =
       [\<lparr>oi_order_id = 1, oi_product_id = 10, oi_quantity = 3, oi_price = 800\<rparr>]
   \<and> (\<exists>doc. blobs (snd (confirm_order scenario_env ''{"order_id": 1}'' scenario_duplicated))
               (blob_name 1) = Some (pdf_output scenario_env doc) \<and>
             filter (\<lambda>l. fst l = 10) (doc_lines doc) = [(10, 3, 800, 2400)])\<close>
proof -
  let ?w'' = \<open>snd (confirm_order scenario_env ''{"order_id": 1}'' scenario_duplicated)\<close>
  have key: "distinct (map row_key (order_items (db scenario_world)))"
    by (simp add: scenario_world_def)
  have occurs: "10 \<in> fst ` set [(10 :: int, 2 :: int, 950 :: int), (10, 3, 800)]" by simp
  have later: \<open>confirm_order scenario_env ''{"order_id": 1}'' scenario_duplicated = (Inr (), ?w'')\<close>
    by (simp add: confirm_order_parsed[OF scenario_loads_confirmation] scenario_no_fault
        scenario_duplicated_def)
  note inst = product_repeated_in_event[OF scenario_loads_duplicate scenario_reserves_duplicate
      key occurs scenario_loads_confirmation later]
  have a: "map inv_quantity (inventory (db scenario_world)) = [1, 4]"
    by (simp add: scenario_world_def)
  from inst have "inventory (db scenario_duplicated) =
           map (\<lambda>r. if inv_warehouse_id r = 5
                     then r\<lparr>inv_quantity := inv_quantity r -
                            sum_list (map (\<lambda>x. fst (snd x))
                              (filter (\<lambda>x. fst x = inv_product_id r)
                                 [(10 :: int, 2 :: int, 950 :: int), (10, 3, 800)]))\<rparr>
                     else r) (inventory (db scenario_world))"
    by blast
  then have b: "map inv_quantity (inventory (db scenario_duplicated)) = [- 4, 4]"
    by (simp add: scenario_world_def)
  from inst have c: "filter (\<lambda>r. oi_order_id r = 1 \<and> oi_product_id r = 10)
        (order_items (db scenario_duplicated)) =
       [\<lparr>oi_order_id = 1, oi_product_id = 10, oi_quantity = 3, oi_price = 800\<rparr>]"
    by (simp add: Let_def)
  from inst have d: "\<exists>doc. blobs ?w'' (blob_name 1) = Some (pdf_output scenario_env doc) \<and>
             filter (\<lambda>l. fst l = 10) (doc_lines doc) = [(10, 3, 800, 2400)]"
    by (simp add: Let_def scenario_env_def) blast
  from scenario_loads_duplicate scenario_reserves_duplicate key occurs
    scenario_loads_confirmation later a b c d
  show ?thesis by blast
qed

subsection \<open>C10: the quote replacement of the Confirmation Handler\<close>

text \<open>
  C10. \<^verbatim>\<open>confirm_order\<close> hands to the JSON parser its body with every single quote turned
  into a double quote: the replacement is character by character, the parser never sees a
  single quote, a parse error of the replaced text is the handler's exception, and two bodies
  with the same replaced text are handled alike (so \<^verbatim>\<open>{'order_id': 1}\<close> is taken as
  \<^verbatim>\<open>{"order_id": 1}\<close>). A body that holds an apostrophe is changed before it is parsed.
  \<^verbatim>\<open>process_order\<close> parses the body as it is: a parse error of the body itself is its
  exception, and its outcome depends on the body through the parser's result on it alone.
\<close>

theorem confirmation_body_quotes_replaced:
  "py_replace [CHR 0x27] [CHR 0x22] body = map (\<lambda>c. if c = CHR 0x27 then CHR 0x22 else c) body
   \<and> (loads_confirmation_event env (map (\<lambda>c. if c = CHR 0x27 then CHR 0x22 else c) body) = Inl e \<longrightarrow>
        confirm_order env body w = (Inl e, w))
   \<and> (loads_confirmation_event env (map (\<lambda>c. if c = CHR 0x27 then CHR 0x22 else c) body) =
        loads_confirmation_event env (map (\<lambda>c. if c = CHR 0x27 then CHR 0x22 else c) body') \<longrightarrow>
        confirm_order env body w = confirm_order env body' w)
   \<and> (CHR 0x27 \<in> set body \<longrightarrow> py_replace [CHR 0x27] [CHR 0x22] body \<noteq> body)
   \<and> CHR 0x27 \<notin> set (py_replace [CHR 0x27] [CHR 0x22] body)
   \<and> (loads_order_event env body = Inl e' \<longrightarrow> process_order env body w = (Inl e', w))
   \<and> (loads_order_event env body = loads_order_event env body' \<longrightarrow>
        process_order env body w = process_order env body' w)"
proof (intro conjI impI)
  let ?q = "\<lambda>c. if c = CHR 0x27 then CHR 0x22 else c"
  show r: "py_replace [CHR 0x27] [CHR 0x22] body = map ?q body"
    by (rule py_replace_single)
  show "confirm_order env body w = (Inl e, w)"
    if "loads_confirmation_event env (map ?q body) = Inl e"
    using that by (simp add: confirm_order_def py_replace_single)
  show "confirm_order env body w = confirm_order env body' w"
    if "loads_confirmation_event env (map ?q body) = loads_confirmation_event env (map ?q body')"
    using that by (simp add: confirm_order_def py_replace_single)
  show "py_replace [CHR 0x27] [CHR 0x22] body \<noteq> body" if "CHR 0x27 \<in> set body"
  proof
    assume "py_replace [CHR 0x27] [CHR 0x22] body = body"
    then have "set (map ?q body) = set body" by (simp add: py_replace_single)
    moreover have "CHR 0x27 \<notin> set (map ?q body)" by auto
    ultimately show False using that by simp
  qed
  show "CHR 0x27 \<notin> set (py_replace [CHR 0x27] [CHR 0x22] body)"
    unfolding r by auto
  show "process_order env body w = (Inl e', w)" if "loads_order_event env body = Inl e'"
    using that by (simp add: process_order_def)
  show "process_order env body w = process_order env body' w"
    if "loads_order_event env body = loads_order_event env body'"
    using that by (simp add: process_order_def)
qed

text \<open>
  The scenario's parser rejects \<^verbatim>\<open>{'order_id': 1}\<close> as it is; \<^verbatim>\<open>confirm_order\<close> accepts it.
\<close>

theorem confirmation_body_quotes_replaced_witness:
  \<open>CHR 0x27 \<in> set ''{'order_id': 1}''
   \<and> py_replace [CHR 0x27] [CHR 0x22] ''{'order_id': 1}'' = ''{"order_id": 1}''
   \<and> py_replace [CHR 0x27] [CHR 0x22] ''{'order_id': 1}'' \<noteq> ''{'order_id': 1}''
   \<and> loads_confirmation_event scenario_env
         (map (\<lambda>c. if c = CHR 0x27 then CHR 0x22 else c) ''{'order_id': 1}'') =
       loads_confirmation_event scenario_env
         (map (\<lambda>c. if c = CHR 0x27 then CHR 0x22 else c) ''{"order_id": 1}'')
   \<and> confirm_order scenario_env ''{'order_id': 1}'' scenario_world =
       confirm_order scenario_env ''{"order_id": 1}'' scenario_world
   \<and> loads_confirmation_event scenario_env ''{'order_id': 1}'' = Inl JSONDecodeError
   \<and> fst (confirm_order scenario_env ''{'order_id': 1}'' scenario_world) = Inr ()
   \<and> loads_confirmation_event scenario_env
         (map (\<lambda>c. if c = CHR 0x27 then CHR 0x22 else c) ''it's'') = Inl JSONDecodeError
   \<and> confirm_order scenario_env ''it's'' scenario_world = (Inl JSONDecodeError, scenario_world)
   \<and> loads_order_event scenario_env ''{'order_id': 1}'' = Inl JSONDecodeError
   \<and> process_order scenario_env ''{'order_id': 1}'' scenario_world =
       (Inl JSONDecodeError, scenario_world)\<close>
proof -
  note inst = confirmation_body_quotes_replaced[where body = \<open>''{'order_id': 1}''\<close>
      and body' = \<open>''{"order_id": 1}''\<close> and env = scenario_env and w = scenario_world
      and e' = JSONDecodeError]
  have a: \<open>CHR 0x27 \<in> set ''{'order_id': 1}''\<close> by simp
  have b: \<open>loads_confirmation_event scenario_env
         (map (\<lambda>c. if c = CHR 0x27 then CHR 0x22 else c) ''{'order_id': 1}'') =
       loads_confirmation_event scenario_env
         (map (\<lambda>c. if c = CHR 0x27 then CHR 0x22 else c) ''{"order_id": 1}'')\<close>
    by simp
  from inst have c: \<open>py_replace [CHR 0x27] [CHR 0x22] ''{'order_id': 1}'' = ''{"order_id": 1}''\<close>
    by simp
  from inst a have d: \<open>py_replace [CHR 0x27] [CHR 0x22] ''{'order_id': 1}'' \<noteq> ''{'order_id': 1}''\<close>
    by blast
  from inst b have e: \<open>confirm_order scenario_env ''{'order_id': 1}'' scenario_world =
       confirm_order scenario_env ''{"order_id": 1}'' scenario_world\<close>
    by blast
  have f: \<open>loads_confirmation_event scenario_env ''{'order_id': 1}'' = Inl JSONDecodeError\<close>
    by (simp add: scenario_env_def)
  have \<open>fst (confirm_order scenario_env ''{"order_id": 1}'' scenario_world) = Inr ()\<close>
    by (simp add: confirm_order_parsed[OF scenario_loads_confirmation])
       (simp add: scenario_world_def scenario_env_def)
  with e have g: \<open>fst (confirm_order scenario_env ''{'order_id': 1}'' scenario_world) = Inr ()\<close>
    by simp
  have h: \<open>loads_confirmation_event scenario_env
         (map (\<lambda>c. if c = CHR 0x27 then CHR 0x22 else c) ''it's'') = Inl JSONDecodeError\<close>
    by (simp add: scenario_env_def)
  from confirmation_body_quotes_replaced[where body = \<open>''it's''\<close> and env = scenario_env
      and w = scenario_world and e = JSONDecodeError] h
  have i: \<open>confirm_order scenario_env ''it's'' scenario_world = (Inl JSONDecodeError, scenario_world)\<close>
    by blast
  have j: \<open>loads_order_event scenario_env ''{'order_id': 1}'' = Inl JSONDecodeError\<close>
    by (simp add: scenario_env_def scenario_order_body_def scenario_duplicate_body_def
        scenario_other_body_def)
  from inst j have k: \<open>process_order scenario_env ''{'order_id': 1}'' scenario_world =
       (Inl JSONDecodeError, scenario_world)\<close>
    by blast
  from a b c d e f g h i j k show ?thesis by blast
qed

end
